theory Spec2Isabelle
  imports Complex_Main "HOL-Library.Log_Nat" "HOL-Library.Multiset"
begin

section \<open>JournalPage.jsx: the confidentiality codec\<close>

text \<open>
  \<^verbatim>\<open>encryptText\<close> and \<^verbatim>\<open>decryptText\<close> wrap the CryptoJS library, which is not part of
  the repository. The library is a parameter of the model: a record of the three library
  calls the wrappers make. A JavaScript call either returns a value (\<open>Inr\<close>) or throws
  (\<open>Inl\<close>). Strings are written by their UTF-8 bytes.
\<close>

datatype exn = Thrown

record ('w, 'r) cryptojs =
  AES_encrypt :: "string \<Rightarrow> string \<Rightarrow> 'r \<Rightarrow> exn + string"
  AES_decrypt :: "string \<Rightarrow> string \<Rightarrow> exn + 'w"
  Utf8_stringify :: "'w \<Rightarrow> exn + string"

text \<open>
  \<open>AES_encrypt lib text key salt\<close> is \<^verbatim>\<open>CryptoJS.AES.encrypt(text, key).toString()\<close>, with
  \<open>salt\<close> the random salt the library draws; \<open>AES_decrypt lib ciphertext key\<close> is
  \<^verbatim>\<open>CryptoJS.AES.decrypt(ciphertext, key)\<close>, a word array of type \<open>'w\<close>; and
  \<open>Utf8_stringify lib bytes\<close> is \<^verbatim>\<open>bytes.toString(CryptoJS.enc.Utf8)\<close>.
\<close>

definition warning_sign :: string where
  "warning_sign = [CHR 0xE2, CHR 0x9A, CHR 0xA0, CHR 0xEF, CHR 0xB8, CHR 0x8F]"

definition failed_to_decrypt :: string where
  "failed_to_decrypt = warning_sign @ '' Failed to decrypt''"

definition invalid_entry :: string where
  "invalid_entry = warning_sign @ '' Invalid entry (cannot decrypt)''"

definition encryptText :: "('w, 'r) cryptojs \<Rightarrow> string \<Rightarrow> 'r \<Rightarrow> string \<Rightarrow> exn + string" where
  "encryptText lib SECRET_KEY salt text = AES_encrypt lib text SECRET_KEY salt"

text \<open>The body of the \<^verbatim>\<open>try\<close> block: \<^verbatim>\<open>s || "..."\<close> replaces the empty string, the
  only falsy string.\<close>

definition decryptText_try :: "('w, 'r) cryptojs \<Rightarrow> string \<Rightarrow> string \<Rightarrow> exn + string" where
  "decryptText_try lib SECRET_KEY ciphertext =
     (case AES_decrypt lib ciphertext SECRET_KEY of
        Inl e \<Rightarrow> Inl e
      | Inr bytes \<Rightarrow>
          (case Utf8_stringify lib bytes of
             Inl e \<Rightarrow> Inl e
           | Inr s \<Rightarrow> Inr (if s = [] then failed_to_decrypt else s)))"

definition decryptText :: "('w, 'r) cryptojs \<Rightarrow> string \<Rightarrow> string \<Rightarrow> exn + string" where
  "decryptText lib SECRET_KEY ciphertext =
     (case decryptText_try lib SECRET_KEY ciphertext of
        Inl e \<Rightarrow> Inr invalid_entry
      | Inr s \<Rightarrow> Inr s)"



text \<open>Encrypting and then decrypting under the same key, as \<^verbatim>\<open>handleSubmit\<close> does with
  the server's echo of the stored entry.\<close>

definition encrypt_then_decrypt ::
  "('w, 'r) cryptojs \<Rightarrow> string \<Rightarrow> 'r \<Rightarrow> string \<Rightarrow> exn + string" where
  "encrypt_then_decrypt lib SECRET_KEY salt text =
     (case encryptText lib SECRET_KEY salt text of
        Inl e \<Rightarrow> Inl e
      | Inr c \<Rightarrow> decryptText lib SECRET_KEY c)"

text \<open>What the wrappers rely on from the library: a message encrypted under a key comes
  back, as the same string, from decryption under that key.\<close>

definition cryptojs_roundtrip :: "('w, 'r) cryptojs \<Rightarrow> bool" where
  "cryptojs_roundtrip lib \<longleftrightarrow>
     (\<forall>text key salt. \<exists>c w. AES_encrypt lib text key salt = Inr c
        \<and> AES_decrypt lib c key = Inr w \<and> Utf8_stringify lib w = Inr text)"

text \<open>A small cipher with that property, to instantiate the parameter: the ciphertext is
  the key followed by the message, and decryption under another key throws.\<close>

definition prefix_cipher :: "(string, unit) cryptojs" where
  "prefix_cipher =
     \<lparr> AES_encrypt = (\<lambda>text key salt. Inr (key @ text)),
       AES_decrypt = (\<lambda>c key. if take (length key) c = key then Inr (drop (length key) c)
                               else Inl Thrown),
       Utf8_stringify = (\<lambda>w. Inr w) \<rparr>"

section \<open>JavaScript dates\<close>

text \<open>
  The part of the language's \<^verbatim>\<open>Date\<close> that the repository uses, after ECMAScript's
  definitions. A time value is a number of milliseconds since 1970-01-01T00:00Z. A process
  has one time zone, here a fixed offset \<open>tz\<close> from UTC in milliseconds (daylight-saving
  changes are outside the model). The first year of a 400-year cycle, 1601, is day
  \<open>-134774\<close>.
\<close>

definition msPerDay :: int where
  "msPerDay = 86400000"

definition Day :: "int \<Rightarrow> int" where
  "Day t = t div msPerDay"

definition TimeWithinDay :: "int \<Rightarrow> int" where
  "TimeWithinDay t = t mod msPerDay"

definition LocalTime :: "int \<Rightarrow> int \<Rightarrow> int" where
  "LocalTime tz t = t + tz"

definition UTC :: "int \<Rightarrow> int \<Rightarrow> int" where
  "UTC tz t = t - tz"

definition DayFromYear :: "int \<Rightarrow> int" where
  "DayFromYear y = 365 * (y - 1970) + (y - 1969) div 4 - (y - 1901) div 100 + (y - 1601) div 400"

definition InLeapYear :: "int \<Rightarrow> bool" where
  "InLeapYear y \<longleftrightarrow> y mod 4 = 0 \<and> (y mod 100 \<noteq> 0 \<or> y mod 400 = 0)"

text \<open>The year containing a day, and the day's position in that year: \<^verbatim>\<open>YearFromTime\<close>
  and \<^verbatim>\<open>DayWithinYear\<close>, computed by centuries, four-year blocks and years.\<close>

definition year_and_day :: "int \<Rightarrow> int \<times> int" where
  "year_and_day day =
     (let n = day + 134774;
          era = n div 146097;
          d1 = n mod 146097;
          a = min (d1 div 36524) 3;
          d2 = d1 - 36524 * a;
          b = d2 div 1461;
          d3 = d2 mod 1461;
          c = min (d3 div 365) 3;
          d4 = d3 - 365 * c
      in (1601 + 400 * era + 100 * a + 4 * b + c, d4))"

definition YearFromTime :: "int \<Rightarrow> int" where
  "YearFromTime t = fst (year_and_day (Day t))"

definition DayWithinYear :: "int \<Rightarrow> int" where
  "DayWithinYear t = snd (year_and_day (Day t))"

definition month_start :: "int \<Rightarrow> bool \<Rightarrow> int" where
  "month_start m leap =
     (let l = (if leap then 1 else 0) in
      if m = 0 then 0 else if m = 1 then 31 else if m = 2 then 59 + l
      else if m = 3 then 90 + l else if m = 4 then 120 + l else if m = 5 then 151 + l
      else if m = 6 then 181 + l else if m = 7 then 212 + l else if m = 8 then 243 + l
      else if m = 9 then 273 + l else if m = 10 then 304 + l else 334 + l)"

definition month_of_day :: "int \<Rightarrow> bool \<Rightarrow> int" where
  "month_of_day dwy leap =
     (let l = (if leap then 1 else 0) in
      if dwy < 31 then 0 else if dwy < 59 + l then 1 else if dwy < 90 + l then 2
      else if dwy < 120 + l then 3 else if dwy < 151 + l then 4 else if dwy < 181 + l then 5
      else if dwy < 212 + l then 6 else if dwy < 243 + l then 7 else if dwy < 273 + l then 8
      else if dwy < 304 + l then 9 else if dwy < 334 + l then 10 else 11)"

definition MonthFromTime :: "int \<Rightarrow> int" where
  "MonthFromTime t = month_of_day (DayWithinYear t) (InLeapYear (YearFromTime t))"

definition DateFromTime :: "int \<Rightarrow> int" where
  "DateFromTime t =
     DayWithinYear t - month_start (MonthFromTime t) (InLeapYear (YearFromTime t)) + 1"

definition WeekDay :: "int \<Rightarrow> int" where
  "WeekDay t = (Day t + 4) mod 7"

definition MakeDay :: "int \<Rightarrow> int \<Rightarrow> int \<Rightarrow> int" where
  "MakeDay year month dt =
     (let ym = year + month div 12; mn = month mod 12
      in DayFromYear ym + month_start mn (InLeapYear ym) + dt - 1)"

definition MakeDate :: "int \<Rightarrow> int \<Rightarrow> int" where
  "MakeDate day time = day * msPerDay + time"

text \<open>A \<^verbatim>\<open>Date\<close> object holds a time value or \<^verbatim>\<open>NaN\<close> (an invalid date).\<close>

datatype Date = Invalid_Date | Time_Value int



text \<open>Getters return a number; \<open>None\<close> is \<^verbatim>\<open>NaN\<close>, the value every getter of an
  invalid date returns.\<close>

definition getFullYear :: "int \<Rightarrow> Date \<Rightarrow> int option" where
  "getFullYear tz d =
     (case d of Invalid_Date \<Rightarrow> None | Time_Value t \<Rightarrow> Some (YearFromTime (LocalTime tz t)))"

definition getMonth :: "int \<Rightarrow> Date \<Rightarrow> int option" where
  "getMonth tz d =
     (case d of Invalid_Date \<Rightarrow> None | Time_Value t \<Rightarrow> Some (MonthFromTime (LocalTime tz t)))"

definition getDate :: "int \<Rightarrow> Date \<Rightarrow> int option" where
  "getDate tz d =
     (case d of Invalid_Date \<Rightarrow> None | Time_Value t \<Rightarrow> Some (DateFromTime (LocalTime tz t)))"

text \<open>\<^verbatim>\<open>===\<close>, \<^verbatim>\<open>-\<close> and \<^verbatim>\<open><\<close> on such numbers: \<^verbatim>\<open>NaN\<close> equals nothing, is less than
  nothing, and propagates through subtraction.\<close>

definition strict_equal :: "int option \<Rightarrow> int option \<Rightarrow> bool" where
  "strict_equal x y = (case (x, y) of (Some a, Some b) \<Rightarrow> a = b | _ \<Rightarrow> False)"

definition number_minus :: "int option \<Rightarrow> int option \<Rightarrow> int option" where
  "number_minus x y = (case (x, y) of (Some a, Some b) \<Rightarrow> Some (a - b) | _ \<Rightarrow> None)"

definition number_less :: "int option \<Rightarrow> int option \<Rightarrow> bool" where
  "number_less x y = (case (x, y) of (Some a, Some b) \<Rightarrow> a < b | _ \<Rightarrow> False)"

definition valueOf :: "Date \<Rightarrow> int option" where
  "valueOf d = (case d of Invalid_Date \<Rightarrow> None | Time_Value t \<Rightarrow> Some t)"

text \<open>\<^verbatim>\<open>d.setDate(dt)\<close> keeps the local year, month and time of day and replaces the
  day of the month; \<^verbatim>\<open>MakeDay\<close> carries a day of the month outside the month over.\<close>

definition setDate :: "int \<Rightarrow> Date \<Rightarrow> int option \<Rightarrow> Date" where
  "setDate tz d dt =
     (case (d, dt) of
        (Time_Value t, Some v) \<Rightarrow>
          (let lt = LocalTime tz t
           in Time_Value (UTC tz (MakeDate (MakeDay (YearFromTime lt) (MonthFromTime lt) v)
                                    (TimeWithinDay lt))))
      | _ \<Rightarrow> Invalid_Date)"

subsection \<open>toDateString\<close>

definition decimal_digits :: string where
  "decimal_digits = ''0123456789''"

definition digit_char :: "int \<Rightarrow> char" where
  "digit_char d = decimal_digits ! nat d"

function digits :: "int \<Rightarrow> string" where
  "digits n = (if n < 10 then [digit_char n] else digits (n div 10) @ [digit_char (n mod 10)])"
  by pat_completeness auto
termination
  by (relation "measure nat") auto

declare digits.simps [simp del]

definition ToZeroPaddedDecimalString :: "int \<Rightarrow> nat \<Rightarrow> string" where
  "ToZeroPaddedDecimalString n minLength =
     replicate (minLength - length (digits n)) CHR ''0'' @ digits n"

definition weekday_names :: "string list" where
  "weekday_names = [''Sun'', ''Mon'', ''Tue'', ''Wed'', ''Thu'', ''Fri'', ''Sat'']"

definition month_names :: "string list" where
  "month_names = [''Jan'', ''Feb'', ''Mar'', ''Apr'', ''May'', ''Jun'',
                  ''Jul'', ''Aug'', ''Sep'', ''Oct'', ''Nov'', ''Dec'']"

definition DateString :: "int \<Rightarrow> string" where
  "DateString tv =
     (let yv = YearFromTime tv
      in weekday_names ! nat (WeekDay tv) @ '' '' @ month_names ! nat (MonthFromTime tv) @ '' ''
         @ ToZeroPaddedDecimalString (DateFromTime tv) 2 @ '' ''
         @ (if 0 \<le> yv then [] else ''-'') @ ToZeroPaddedDecimalString \<bar>yv\<bar> 4)"

definition toDateString :: "int \<Rightarrow> Date \<Rightarrow> string" where
  "toDateString tz d =
     (case d of Invalid_Date \<Rightarrow> ''Invalid Date'' | Time_Value t \<Rightarrow> DateString (LocalTime tz t))"

subsection \<open>Parsing the strings toDateString produces\<close>

text \<open>
  The \<^verbatim>\<open>Date\<close> constructor applied to a string is a parameter \<open>new_Date\<close> of the handler's
  model, since most of its grammar is left to the implementation. \<open>parse_DateString tz\<close>
  is the instance used in the examples: it accepts exactly the strings \<^verbatim>\<open>toDateString\<close>
  produces, as local midnight of that day, and nothing else.
\<close>

fun split_on :: "char \<Rightarrow> string \<Rightarrow> string list" where
  "split_on c [] = [[]]"
| "split_on c (x # xs) =
     (if x = c then [] # split_on c xs
      else (case split_on c xs of [] \<Rightarrow> [[x]] | w # ws \<Rightarrow> (x # w) # ws))"

fun index_of :: "'a \<Rightarrow> 'a list \<Rightarrow> nat option" where
  "index_of x [] = None"
| "index_of x (y # ys) = (if x = y then Some 0 else map_option Suc (index_of x ys))"

definition digit_value :: "char \<Rightarrow> int option" where
  "digit_value c = map_option int (index_of c decimal_digits)"

definition int_of_digits :: "string \<Rightarrow> int option" where
  "int_of_digits s =
     (if s = [] then None
      else foldl (\<lambda>acc c. case (acc, digit_value c) of
                              (Some n, Some d) \<Rightarrow> Some (10 * n + d)
                            | _ \<Rightarrow> None) (Some 0) s)"

definition parse_DateString :: "int \<Rightarrow> string \<Rightarrow> Date" where
  "parse_DateString tz s =
     (case split_on CHR '' '' s of
        [w, mon, dd, yyyy] \<Rightarrow>
          (case (index_of mon month_names, int_of_digits dd, int_of_digits yyyy) of
             (Some m, Some d, Some y) \<Rightarrow>
               (let t = UTC tz (MakeDate (MakeDay y (int m) d) 0)
                in if toDateString tz (Time_Value t) = s then Time_Value t else Invalid_Date)
           | _ \<Rightarrow> Invalid_Date)
      | _ \<Rightarrow> Invalid_Date)"

section \<open>JavaScript numbers\<close>

text \<open>
  A number is \<^verbatim>\<open>NaN\<close> or a finite binary64 value, held as the rational it denotes.
  \<open>round_double\<close> rounds a rational to the nearest value with a 53-bit significand, ties to
  even; every arithmetic operation rounds its exact result this way. Overflow and
  subnormal values do not arise from the sums and quotients of the handler (an array has
  fewer than \<open>2 ^ 32\<close> elements) and are not modelled.
\<close>

datatype number = NaN | Num rat

definition round_half_even :: "rat \<Rightarrow> int" where
  "round_half_even r =
     (let f = \<lfloor>r\<rfloor>; d = r - of_int f
      in if d < 1 / 2 then f else if 1 / 2 < d then f + 1 else if even f then f else f + 1)"

definition ulp :: "rat \<Rightarrow> rat" where
  "ulp a =
     (if 1 \<le> a then 2 ^ (floorlog 2 (nat \<lfloor>a\<rfloor>) - 1) / 2 ^ 52
      else 1 / (2 ^ 52 * 2 ^ floorlog 2 (nat (\<lceil>1 / a\<rceil> - 1))))"

definition round_double :: "rat \<Rightarrow> rat" where
  "round_double x =
     (if x = 0 then 0
      else sgn x * of_int (round_half_even (\<bar>x\<bar> / ulp \<bar>x\<bar>)) * ulp \<bar>x\<bar>)"

text \<open>\<^verbatim>\<open>x.toFixed(1)\<close>: the integer \<open>n\<close> for which \<open>n / 10\<close> is nearest to \<open>x\<close>, the larger
  one of two, written with a point before its last digit (for \<open>\<bar>x\<bar> < 10 ^ 21\<close>).\<close>

definition fixed1_string :: "int \<Rightarrow> string" where
  "fixed1_string n =
     (let m = digits n;
          m' = (if length m \<le> 1 then replicate (2 - length m) CHR ''0'' @ m else m)
      in take (length m' - 1) m' @ ''.'' @ drop (length m' - 1) m')"

definition toFixed1_digits :: "rat \<Rightarrow> string" where
  "toFixed1_digits x = fixed1_string \<lfloor>x * 10 + 1 / 2\<rfloor>"

definition toFixed1 :: "number \<Rightarrow> string" where
  "toFixed1 v =
     (case v of
        NaN \<Rightarrow> ''NaN''
      | Num x \<Rightarrow> (if x < 0 then ''-'' @ toFixed1_digits (- x) else toFixed1_digits x))"

section \<open>routes/stats.js\<close>

text \<open>The collections the handler queries, with the fields it reads.\<close>

record User =
  name :: string
  email :: string

record JournalEntry =
  user :: nat
  mood :: string
  dateOnly :: string

record Post =
  postedBy :: string

record store =
  Users :: "nat \<rightharpoonup> User"
  JournalEntries :: "JournalEntry list"
  Posts :: "Post list"

subsection \<open>Average mood\<close>

text \<open>
  \<^verbatim>\<open>moodMap[j.mood]\<close> reads a property of an object literal: an own property, or one
  inherited from \<^verbatim>\<open>Object.prototype\<close> (a function, or for \<^verbatim>\<open>__proto__\<close> the prototype
  itself), or \<^verbatim>\<open>undefined\<close>. \<^verbatim>\<open>p || 3\<close> keeps a truthy \<open>p\<close>. Adding an object to a
  number concatenates strings; the result, which is not a numeral, is \<open>Concatenation\<close>,
  and dividing it gives \<^verbatim>\<open>NaN\<close>.
\<close>

datatype property = Undefined | Number_Value rat | Object_Value

definition moodMap :: "(string \<times> rat) list" where
  "moodMap = [(''Very Sad'', 1), (''Sad'', 2), (''Neutral'', 3), (''Happy'', 4), (''Very Happy'', 5)]"

definition Object_prototype :: "string list" where
  "Object_prototype =
     [''constructor'', ''hasOwnProperty'', ''isPrototypeOf'', ''propertyIsEnumerable'',
      ''toLocaleString'', ''toString'', ''valueOf'', ''__proto__'',
      ''__defineGetter__'', ''__defineSetter__'', ''__lookupGetter__'', ''__lookupSetter__'']"

definition moodMap_get :: "string \<Rightarrow> property" where
  "moodMap_get key =
     (case map_of moodMap key of
        Some v \<Rightarrow> Number_Value v
      | None \<Rightarrow> if key \<in> set Object_prototype then Object_Value else Undefined)"

definition or_3 :: "property \<Rightarrow> property" where
  "or_3 p =
     (case p of
        Undefined \<Rightarrow> Number_Value 3
      | Number_Value v \<Rightarrow> if v = 0 then Number_Value 3 else Number_Value v
      | Object_Value \<Rightarrow> Object_Value)"

datatype total = Total number | Concatenation

definition plus_property :: "total \<Rightarrow> property \<Rightarrow> total" where
  "plus_property s p =
     (case (s, p) of
        (Total (Num a), Number_Value b) \<Rightarrow> Total (Num (round_double (a + b)))
      | (Total _, Number_Value b) \<Rightarrow> Total NaN
      | (Total _, Undefined) \<Rightarrow> Total NaN
      | _ \<Rightarrow> Concatenation)"

definition totalMood :: "JournalEntry list \<Rightarrow> total" where
  "totalMood journals =
     foldl (\<lambda>sum j. plus_property sum (or_3 (moodMap_get (mood j)))) (Total (Num 0)) journals"

definition divide_length :: "total \<Rightarrow> nat \<Rightarrow> number" where
  "divide_length t n =
     (case t of Total (Num a) \<Rightarrow> Num (round_double (a / of_nat n)) | _ \<Rightarrow> NaN)"

text \<open>\<^verbatim>\<open>averageMood\<close> starts as the number \<open>0\<close> and is replaced by the string that
  \<^verbatim>\<open>toFixed(1)\<close> returns.\<close>

datatype json_value = JNumber rat | JString string

definition averageMood :: "JournalEntry list \<Rightarrow> json_value" where
  "averageMood journals =
     (if length journals > 0
      then JString (toFixed1 (divide_length (totalMood journals) (length journals)))
      else JNumber 0)"

subsection \<open>Streak\<close>

text \<open>
  \<^verbatim>\<open>Array.prototype.sort\<close> calls the comparator through \<^verbatim>\<open>SortCompare\<close>, where a result of
  \<^verbatim>\<open>NaN\<close> counts as \<open>0\<close>.
\<close>

definition SortCompare :: "('a \<Rightarrow> 'a \<Rightarrow> int option) \<Rightarrow> 'a \<Rightarrow> 'a \<Rightarrow> int" where
  "SortCompare comparefn x y = (case comparefn x y of None \<Rightarrow> 0 | Some v \<Rightarrow> v)"

text \<open>
  The language fixes the result of the sort only for a comparator that is consistent on
  the elements of the array: no result is \<^verbatim>\<open>NaN\<close>, and ``compares equal'' and ``compares
  less'' behave as an equivalence and a strict order that respects it. The predicate looks
  for a violation among the elements.
\<close>

definition consistent_comparator :: "('a \<Rightarrow> 'a \<Rightarrow> int option) \<Rightarrow> 'a list \<Rightarrow> bool" where
  "consistent_comparator comparefn xs =
     (\<not> list_ex (\<lambda>a. list_ex (\<lambda>b. comparefn a b = None) xs) xs
      \<and> \<not> list_ex (\<lambda>a. SortCompare comparefn a a \<noteq> 0) xs
      \<and> \<not> list_ex (\<lambda>a. list_ex (\<lambda>b.
            SortCompare comparefn a b = 0 \<and> SortCompare comparefn b a \<noteq> 0) xs) xs
      \<and> \<not> list_ex (\<lambda>a. list_ex (\<lambda>b. list_ex (\<lambda>c.
            SortCompare comparefn a b = 0 \<and> SortCompare comparefn b c = 0
            \<and> SortCompare comparefn a c \<noteq> 0) xs) xs) xs
      \<and> \<not> list_ex (\<lambda>a. list_ex (\<lambda>b. list_ex (\<lambda>c.
            SortCompare comparefn a b < 0 \<and> SortCompare comparefn b c < 0
            \<and> \<not> SortCompare comparefn a c < 0) xs) xs) xs
      \<and> \<not> list_ex (\<lambda>a. list_ex (\<lambda>b. list_ex (\<lambda>c.
            SortCompare comparefn a b > 0 \<and> SortCompare comparefn b c > 0
            \<and> \<not> SortCompare comparefn a c > 0) xs) xs) xs)"

text \<open>
  For a consistent comparator the result is the stable sorted arrangement, which insertion
  computes.
\<close>

primrec insert_sorted :: "('a \<Rightarrow> 'a \<Rightarrow> int) \<Rightarrow> 'a \<Rightarrow> 'a list \<Rightarrow> 'a list" where
  "insert_sorted cmp x [] = [x]"
| "insert_sorted cmp x (y # ys) =
     (if cmp x y \<le> 0 then x # y # ys else y # insert_sorted cmp x ys)"

text \<open>
  Otherwise the order is the implementation's, and the language only keeps the elements: the
  engine's sorting procedure is a parameter, and a result of it that is no rearrangement of
  the array is not used. The comparator \<^verbatim>\<open>(a, b) => b - a\<close> of the handler is consistent when
  every date is valid; with an invalid date among several different dates it is not.
\<close>

definition Array_sort ::
  "(('a \<Rightarrow> 'a \<Rightarrow> int option) \<Rightarrow> 'a list \<Rightarrow> 'a list) \<Rightarrow> ('a \<Rightarrow> 'a \<Rightarrow> int option)
     \<Rightarrow> 'a list \<Rightarrow> 'a list" where
  "Array_sort engine comparefn xs =
     (if consistent_comparator comparefn xs
      then foldr (insert_sorted (SortCompare comparefn)) xs []
      else (let ys = engine comparefn xs in if mset ys = mset xs then ys else xs))"

text \<open>
  The engine of Node.js is V8. For an array of fewer than 64 elements its sort takes the
  longest run at the start of the array (\<^verbatim>\<open>CountAndMakeRun\<close>: ascending, or strictly
  descending and then reversed) and inserts each later element by binary search
  (\<^verbatim>\<open>BinaryInsertionSort\<close>). Longer arrays are sorted in pieces that are then merged; that
  part of the engine is the parameter \<open>merge_runs\<close>. \<open>run_end\<close> is the loop of
  \<^verbatim>\<open>CountAndMakeRun\<close> after the first two elements; it returns the rest of the run and what
  follows the run.
\<close>

fun run_end :: "('a \<Rightarrow> 'a \<Rightarrow> int) \<Rightarrow> bool \<Rightarrow> 'a \<Rightarrow> 'a list \<Rightarrow> 'a list \<times> 'a list" where
  "run_end cmp isDescending previousElement [] = ([], [])"
| "run_end cmp isDescending previousElement (currentElement # xs) =
     (let order = cmp currentElement previousElement
      in if (if isDescending then order \<ge> 0 else order < 0) then ([], currentElement # xs)
         else (let (run, rest) = run_end cmp isDescending currentElement xs
               in (currentElement # run, rest)))"

fun CountAndMakeRun :: "('a \<Rightarrow> 'a \<Rightarrow> int) \<Rightarrow> 'a list \<Rightarrow> 'a list \<times> 'a list" where
  "CountAndMakeRun cmp (elementHigh # elementLow # xs) =
     (let isDescending = cmp elementLow elementHigh < 0;
          (run, rest) = run_end cmp isDescending elementLow xs
      in (if isDescending then rev (elementHigh # elementLow # run)
          else elementHigh # elementLow # run, rest))"
| "CountAndMakeRun cmp xs = (xs, [])"

function binary_search :: "('a \<Rightarrow> 'a \<Rightarrow> int) \<Rightarrow> 'a \<Rightarrow> 'a list \<Rightarrow> nat \<Rightarrow> nat \<Rightarrow> nat" where
  "binary_search cmp pivot xs left right =
     (if left < right
      then (let mid = left + (right - left) div 2
            in if cmp pivot (xs ! mid) < 0 then binary_search cmp pivot xs left mid
               else binary_search cmp pivot xs (mid + 1) right)
      else left)"
  by pat_completeness auto
termination
  by (relation "measure (\<lambda>(cmp, pivot, xs, left, right). right - left)") auto

declare binary_search.simps [simp del]

fun BinaryInsertionSort :: "('a \<Rightarrow> 'a \<Rightarrow> int) \<Rightarrow> 'a list \<Rightarrow> 'a list \<Rightarrow> 'a list" where
  "BinaryInsertionSort cmp run [] = run"
| "BinaryInsertionSort cmp run (pivot # xs) =
     (let left = binary_search cmp pivot run 0 (length run)
      in BinaryInsertionSort cmp (take left run @ pivot # drop left run) xs)"

definition V8_sort ::
  "(('a \<Rightarrow> 'a \<Rightarrow> int option) \<Rightarrow> 'a list \<Rightarrow> 'a list) \<Rightarrow> ('a \<Rightarrow> 'a \<Rightarrow> int option)
     \<Rightarrow> 'a list \<Rightarrow> 'a list" where
  "V8_sort merge_runs comparefn xs =
     (if length xs < 64
      then (let (run, rest) = CountAndMakeRun (SortCompare comparefn) xs
            in BinaryInsertionSort (SortCompare comparefn) run rest)
      else merge_runs comparefn xs)"

text \<open>The \<^verbatim>\<open>for (let d of dates)\<close> loop, on the state \<^verbatim>\<open>(streak, today)\<close>.\<close>

fun streak_loop :: "int \<Rightarrow> Date list \<Rightarrow> nat \<times> Date \<Rightarrow> nat \<times> Date" where
  "streak_loop tz [] (streak, today) = (streak, today)"
| "streak_loop tz (d # ds) (streak, today) =
     (if strict_equal (getFullYear tz d) (getFullYear tz today)
         \<and> strict_equal (getMonth tz d) (getMonth tz today)
         \<and> strict_equal (getDate tz d) (getDate tz today)
      then streak_loop tz ds
             (streak + 1, setDate tz today (number_minus (getDate tz today) (Some 1)))
      else if number_less (valueOf d) (valueOf today) then (streak, today)
      else streak_loop tz ds (streak, today))"

type_synonym sort_engine = "(Date \<Rightarrow> Date \<Rightarrow> int option) \<Rightarrow> Date list \<Rightarrow> Date list"

definition dates :: "sort_engine \<Rightarrow> (string \<Rightarrow> Date) \<Rightarrow> JournalEntry list \<Rightarrow> Date list" where
  "dates engine new_Date journals =
     Array_sort engine (\<lambda>a b. number_minus (valueOf b) (valueOf a))
       (map (\<lambda>j. new_Date (dateOnly j)) journals)"

text \<open>\<open>now\<close> is the time value of \<^verbatim>\<open>new Date()\<close>, the clock reading.\<close>

definition streak ::
  "sort_engine \<Rightarrow> int \<Rightarrow> (string \<Rightarrow> Date) \<Rightarrow> int \<Rightarrow> JournalEntry list \<Rightarrow> nat" where
  "streak engine tz new_Date now journals =
     (if length journals > 0
      then fst (streak_loop tz (dates engine new_Date journals) (0, Time_Value now))
      else 0)"

subsection \<open>The handler\<close>

text \<open>The handler answers 404 for an unknown user and otherwise the summary. (Its
  \<^verbatim>\<open>catch\<close> answers 500 when a query fails; queries are total in the model.)\<close>

record stats =
  json_name :: string
  json_email :: string
  json_totalEntries :: nat
  json_averageMood :: json_value
  json_streak :: nat
  json_communityPosts :: nat

datatype response = Status404 | Json stats

definition JournalEntry_find :: "store \<Rightarrow> nat \<Rightarrow> JournalEntry list" where
  "JournalEntry_find db userId = filter (\<lambda>j. user j = userId) (JournalEntries db)"

definition JournalEntry_countDocuments :: "store \<Rightarrow> nat \<Rightarrow> nat" where
  "JournalEntry_countDocuments db userId = length (JournalEntry_find db userId)"

definition Post_countDocuments :: "store \<Rightarrow> string \<Rightarrow> nat" where
  "Post_countDocuments db n = length (filter (\<lambda>p. postedBy p = n) (Posts db))"

definition stats_get ::
  "sort_engine \<Rightarrow> int \<Rightarrow> (string \<Rightarrow> Date) \<Rightarrow> int \<Rightarrow> store \<Rightarrow> nat \<Rightarrow> response" where
  "stats_get engine tz new_Date now db userId =
     (case Users db userId of
        None \<Rightarrow> Status404
      | Some u \<Rightarrow>
          (let totalEntries = JournalEntry_countDocuments db userId;
               journals = JournalEntry_find db userId
           in Json \<lparr> json_name = name u, json_email = email u,
                     json_totalEntries = totalEntries,
                     json_averageMood = averageMood journals,
                     json_streak = streak engine tz new_Date now journals,
                     json_communityPosts = Post_countDocuments db (name u) \<rparr>))"

section \<open>JournalPage.jsx: moods and the day of an entry\<close>

text \<open>The moods the page offers: the emoji U+1F60A, U+1F614, U+1F621, U+1F631, U+1F634,
  and U+2764 U+FE0F, in UTF-8.\<close>

definition moods :: "string list" where
  "moods = [[CHR 0xF0, CHR 0x9F, CHR 0x98, CHR 0x8A], [CHR 0xF0, CHR 0x9F, CHR 0x98, CHR 0x94],
            [CHR 0xF0, CHR 0x9F, CHR 0x98, CHR 0xA1], [CHR 0xF0, CHR 0x9F, CHR 0x98, CHR 0xB1],
            [CHR 0xF0, CHR 0x9F, CHR 0x98, CHR 0xB4],
            [CHR 0xE2, CHR 0x9D, CHR 0xA4, CHR 0xEF, CHR 0xB8, CHR 0x8F]]"





section \<open>Notions used to state the properties\<close>

definition local_day :: "int \<Rightarrow> int \<Rightarrow> int" where
  "local_day tz t = Day (LocalTime tz t)"

definition date_days :: "int \<Rightarrow> Date list \<Rightarrow> int set" where
  "date_days tz ds =
     set (concat (map (\<lambda>d. case d of Invalid_Date \<Rightarrow> [] | Time_Value t \<Rightarrow> [local_day tz t]) ds))"

definition journal_days :: "int \<Rightarrow> (string \<Rightarrow> Date) \<Rightarrow> JournalEntry list \<Rightarrow> int set" where
  "journal_days tz new_Date journals = date_days tz (map (\<lambda>j. new_Date (dateOnly j)) journals)"


text \<open>The number a decimal numeral \<^verbatim>\<open>digits.digits\<close> denotes, and the number a JSON
  value denotes to a reader that converts it.\<close>

definition decimal_value :: "string \<Rightarrow> rat option" where
  "decimal_value s =
     (case split_on CHR ''.'' s of
        [a, b] \<Rightarrow>
          (case (int_of_digits a, int_of_digits b) of
             (Some x, Some y) \<Rightarrow> Some (of_int x + of_int y / 10 ^ length b)
           | _ \<Rightarrow> None)
      | _ \<Rightarrow> None)"

definition json_number :: "json_value \<Rightarrow> rat option" where
  "json_number v = (case v of JNumber r \<Rightarrow> Some r | JString s \<Rightarrow> decimal_value s)"

text \<open>The numeric scale: the five labels, and 3 for any other label.\<close>

definition mood_number :: "string \<Rightarrow> nat" where
  "mood_number m =
     (if m = ''Very Sad'' then 1 else if m = ''Sad'' then 2 else if m = ''Neutral'' then 3
      else if m = ''Happy'' then 4 else if m = ''Very Happy'' then 5 else 3)"

definition mean_mood :: "JournalEntry list \<Rightarrow> rat" where
  "mean_mood journals =
     of_nat (sum_list (map (\<lambda>j. mood_number (mood j)) journals)) / of_nat (length journals)"

text \<open>Reading digits from a given start, as \<open>int_of_digits\<close> does from 0.\<close>

definition read_digits :: "int option \<Rightarrow> string \<Rightarrow> int option" where
  "read_digits start s =
     foldl (\<lambda>acc c. case (acc, digit_value c) of
                      (Some n, Some d) \<Rightarrow> Some (10 * n + d)
                    | _ \<Rightarrow> None) start s"

definition malformed_count :: "(string \<Rightarrow> Date) \<Rightarrow> JournalEntry list \<Rightarrow> nat" where
  "malformed_count new_Date journals =
     length (filter (\<lambda>j. new_Date (dateOnly j) = Invalid_Date) journals)"

subsection \<open>Data for the examples\<close>

definition entry :: "string \<Rightarrow> string \<Rightarrow> JournalEntry" where
  "entry m s = \<lparr>user = 7, mood = m, dateOnly = s\<rparr>"

definition noon_Nov_10 :: int where
  "noon_Nov_10 = 1794312000000"


definition one_hour :: int where
  "one_hour = 3600000"

definition db_of :: "JournalEntry list \<Rightarrow> store" where
  "db_of js = \<lparr>Users = [7 \<mapsto> \<lparr>name = ''asha'', email = ''asha@example.org''\<rparr>],
               JournalEntries = js, Posts = []\<rparr>"

section \<open>Properties of the codec\<close>

lemma prefix_cipher_roundtrip: "cryptojs_roundtrip prefix_cipher"
  by (simp add: cryptojs_roundtrip_def prefix_cipher_def)

lemma failed_to_decrypt_nonempty: "failed_to_decrypt \<noteq> []"
  by (simp add: failed_to_decrypt_def warning_sign_def)

lemma decryptText_of_encrypted:
  assumes "cryptojs_roundtrip lib"
  shows "encrypt_then_decrypt lib key salt text
           = Inr (if text = [] then failed_to_decrypt else text)"
proof -
  from assms obtain c w where
    "AES_encrypt lib text key salt = Inr c" "AES_decrypt lib c key = Inr w"
    "Utf8_stringify lib w = Inr text"
    unfolding cryptojs_roundtrip_def by blast
  then show ?thesis
    by (simp add: encrypt_then_decrypt_def encryptText_def decryptText_def decryptText_try_def)
qed



text \<open>
  C1, as amended. For a library that round-trips, and every non-empty plaintext, every key
  and every salt, \<^verbatim>\<open>decryptText(encryptText(x))\<close> returns \<open>x\<close>. (The empty plaintext comes
  back as the failure placeholder; \<^verbatim>\<open>handleSubmit\<close> refuses to save an empty entry.)
\<close>

theorem roundtrip_nonempty:
  assumes "cryptojs_roundtrip lib" and "text \<noteq> []"
  shows "encrypt_then_decrypt lib key salt text = Inr text"
  using decryptText_of_encrypted [OF assms(1), of key salt "text"] assms(2) by simp

theorem roundtrip_nonempty_witness:
  "cryptojs_roundtrip prefix_cipher \<and> ''hello'' \<noteq> []
   \<and> encrypt_then_decrypt prefix_cipher ''k3y'' () ''hello'' = Inr ''hello''"
  using roundtrip_nonempty [OF prefix_cipher_roundtrip, of "''hello''" "''k3y''" "()"]
    prefix_cipher_roundtrip
  by simp

text \<open>
  C1 as stated fails: the round trip of the empty plaintext is the placeholder
  \<^verbatim>\<open>"\<dots> Failed to decrypt"\<close>, for any library that round-trips.
\<close>

theorem roundtrip_empty_counterexample:
  "\<not> (\<forall>(lib :: (string, unit) cryptojs) key salt text.
         cryptojs_roundtrip lib \<longrightarrow> encrypt_then_decrypt lib key salt text = Inr text)"
proof
  assume "\<forall>(lib :: (string, unit) cryptojs) key salt text.
            cryptojs_roundtrip lib \<longrightarrow> encrypt_then_decrypt lib key salt text = Inr text"
  with prefix_cipher_roundtrip
  have "encrypt_then_decrypt prefix_cipher ''k3y'' () [] = Inr []" by blast
  moreover have "encrypt_then_decrypt prefix_cipher ''k3y'' () [] = Inr failed_to_decrypt"
    using decryptText_of_encrypted [OF prefix_cipher_roundtrip, of "''k3y''" "()" "[]"] by simp
  ultimately show False using failed_to_decrypt_nonempty by simp
qed


section \<open>The calendar and the streak loop\<close>



lemma div_block:
  fixes k r :: int
  assumes "0 \<le> r" "r < m"
  shows "(k * m + r) div m = k"
  using assms by (simp add: div_pos_pos_trivial)

lemma DayFromYear_decompose:
  fixes e a b c :: int
  assumes "0 \<le> a" "a \<le> 3" "0 \<le> b" "b \<le> 24" "0 \<le> c" "c \<le> 3"
  shows "DayFromYear (1601 + 400 * e + 100 * a + 4 * b + c)
         = 146097 * e + 36524 * a + 1461 * b + 365 * c - 134774"
proof -
  have "(1601 + 400 * e + 100 * a + 4 * b + c - 1969) = (100 * e + 25 * a + b - 92) * 4 + c"
    by simp
  then have 1: "(1601 + 400 * e + 100 * a + 4 * b + c - 1969) div 4 = 100 * e + 25 * a + b - 92"
    using div_block [of c 4 "100 * e + 25 * a + b - 92"] assms by simp
  have "(1601 + 400 * e + 100 * a + 4 * b + c - 1901) = (4 * e + a - 3) * 100 + (4 * b + c)"
    by simp
  then have 2: "(1601 + 400 * e + 100 * a + 4 * b + c - 1901) div 100 = 4 * e + a - 3"
    using div_block [of "4 * b + c" 100 "4 * e + a - 3"] assms by simp
  have "(1601 + 400 * e + 100 * a + 4 * b + c - 1601) = e * 400 + (100 * a + 4 * b + c)"
    by simp
  then have 3: "(1601 + 400 * e + 100 * a + 4 * b + c - 1601) div 400 = e"
    using div_block [of "100 * a + 4 * b + c" 400 e] assms by simp
  show ?thesis unfolding DayFromYear_def 1 2 3 by simp
qed

lemma year_and_day_sum:
  "DayFromYear (fst (year_and_day d)) + snd (year_and_day d) = d"
proof -
  define n where "n = d + 134774"
  define era where "era = n div 146097"
  define d1 where "d1 = n mod 146097"
  define q where "q = d1 div 36524"
  define a where "a = min q 3"
  define d2 where "d2 = d1 - 36524 * a"
  define b where "b = d2 div 1461"
  define d3 where "d3 = d2 mod 1461"
  define c where "c = min (d3 div 365) 3"
  define d4 where "d4 = d3 - 365 * c"
  have yd: "year_and_day d = (1601 + 400 * era + 100 * a + 4 * b + c, d4)"
    unfolding year_and_day_def Let_def n_def era_def d1_def q_def a_def d2_def b_def d3_def
      c_def d4_def
    by (rule refl)
  have d1: "0 \<le> d1" "d1 < 146097" by (simp_all add: d1_def)
  have q: "0 \<le> q" using d1 by (simp add: q_def pos_imp_zdiv_nonneg_iff)
  have a: "0 \<le> a" "a \<le> 3" using q by (simp_all add: a_def)
  have d1q: "d1 = 36524 * q + d1 mod 36524" by (simp add: q_def)
  have r: "0 \<le> d1 mod 36524" "d1 mod 36524 < 36524" by simp_all
  have "0 \<le> d2 \<and> d2 \<le> 36524"
  proof (cases "q \<le> 3")
    case True
    then have "d2 = d1 mod 36524" using d1q by (simp add: d2_def a_def min_def)
    with r show ?thesis by simp
  next
    case False
    then have "d2 = d1 - 109572" "4 \<le> q" by (simp_all add: d2_def a_def min_def)
    with d1 d1q r show ?thesis by linarith
  qed
  then have d2: "0 \<le> d2" "d2 \<le> 36524" by simp_all
  have b: "0 \<le> b" "b \<le> 24"
  proof -
    show "0 \<le> b" using d2 by (simp add: b_def pos_imp_zdiv_nonneg_iff)
    have "d2 div 1461 \<le> 36524 div 1461" using d2 by (intro zdiv_mono1) simp_all
    then show "b \<le> 24" by (simp add: b_def)
  qed
  have d3: "0 \<le> d3" "d3 < 1461" by (simp_all add: d3_def)
  have c: "0 \<le> c" "c \<le> 3" using d3 by (simp_all add: c_def pos_imp_zdiv_nonneg_iff)
  have "n = 146097 * era + d1" by (simp add: era_def d1_def)
  moreover have "d2 = 1461 * b + d3" by (simp add: b_def d3_def)
  ultimately have e: "146097 * era + 36524 * a + 1461 * b + 365 * c - 134774 + d4 = d"
    by (simp add: n_def d2_def d4_def)
  have "DayFromYear (fst (year_and_day d)) + snd (year_and_day d)
        = 146097 * era + 36524 * a + 1461 * b + 365 * c - 134774 + d4"
    by (simp only: yd fst_conv snd_conv DayFromYear_decompose [OF a b c])
  with e show ?thesis by (simp only:)
qed




lemma month_of_day_range: "0 \<le> month_of_day d l \<and> month_of_day d l \<le> 11"
  by (simp add: month_of_day_def Let_def)

lemma MakeDay_of_fields:
  "MakeDay (YearFromTime t) (MonthFromTime t) (DateFromTime t + k) = Day t + k"
proof -
  have m: "0 \<le> MonthFromTime t" "MonthFromTime t < 12"
    using month_of_day_range [of "DayWithinYear t" "InLeapYear (YearFromTime t)"]
    by (simp_all add: MonthFromTime_def)
  then have "MonthFromTime t div 12 = 0" "MonthFromTime t mod 12 = MonthFromTime t"
    by simp_all
  then show ?thesis
    using year_and_day_sum [of "Day t"]
    by (simp add: MakeDay_def Let_def DateFromTime_def YearFromTime_def DayWithinYear_def)
qed

lemma Day_of_fields:
  assumes "YearFromTime a = YearFromTime b" "MonthFromTime a = MonthFromTime b"
    "DateFromTime a = DateFromTime b"
  shows "Day a = Day b"
  using MakeDay_of_fields [of a 0] MakeDay_of_fields [of b 0] assms by simp

lemma fields_of_Day:
  assumes "Day a = Day b"
  shows "YearFromTime a = YearFromTime b" "MonthFromTime a = MonthFromTime b"
    "DateFromTime a = DateFromTime b"
  using assms by (simp_all add: YearFromTime_def MonthFromTime_def DateFromTime_def DayWithinYear_def)

lemma same_date_iff:
  "strict_equal (getFullYear tz (Time_Value a)) (getFullYear tz (Time_Value b))
   \<and> strict_equal (getMonth tz (Time_Value a)) (getMonth tz (Time_Value b))
   \<and> strict_equal (getDate tz (Time_Value a)) (getDate tz (Time_Value b))
   \<longleftrightarrow> local_day tz a = local_day tz b"
  using Day_of_fields [of "LocalTime tz a" "LocalTime tz b"]
    fields_of_Day [of "LocalTime tz a" "LocalTime tz b"]
  by (auto simp: strict_equal_def getFullYear_def getMonth_def getDate_def local_day_def)

lemma same_date_Invalid:
  "\<not> strict_equal (getFullYear tz Invalid_Date) y"
  by (simp add: strict_equal_def getFullYear_def)

lemma MakeDate_split: "MakeDate (Day t + k) (TimeWithinDay t) = t + k * msPerDay"
  by (simp add: MakeDate_def Day_def TimeWithinDay_def algebra_simps)

lemma setDate_previous:
  "setDate tz (Time_Value t) (number_minus (getDate tz (Time_Value t)) (Some 1))
   = Time_Value (t - msPerDay)"
  using MakeDay_of_fields [of "LocalTime tz t" "- 1"] MakeDate_split [of "LocalTime tz t" "- 1"]
  by (simp add: setDate_def number_minus_def getDate_def Let_def UTC_def LocalTime_def)

lemma local_day_previous: "local_day tz (t - msPerDay) = local_day tz t - 1"
proof -
  have "(t + tz - msPerDay) div msPerDay = (t + tz) div msPerDay - 1"
    using div_add_self2 [of msPerDay "t + tz - msPerDay"] by (simp add: msPerDay_def)
  then show ?thesis by (simp add: local_day_def Day_def LocalTime_def algebra_simps)
qed

lemma local_day_mono: "a \<le> b \<Longrightarrow> local_day tz a \<le> local_day tz b"
  by (simp add: local_day_def Day_def LocalTime_def msPerDay_def zdiv_mono1)

lemma date_days_Times: "date_days tz (map Time_Value ts) = local_day tz ` set ts"
  by (induction ts) (auto simp: date_days_def)

lemma streak_loop_step:
  "streak_loop tz (Time_Value a # ds) (s, Time_Value t) =
     (if local_day tz a = local_day tz t then streak_loop tz ds (s + 1, Time_Value (t - msPerDay))
      else if a < t then (s, Time_Value t)
      else streak_loop tz ds (s, Time_Value t))"
  using same_date_iff [of tz a t]
  by (simp add: setDate_previous number_less_def valueOf_def)

lemma streak_loop_Invalid:
  "streak_loop tz (Invalid_Date # ds) (s, today) = streak_loop tz ds (s, today)"
  by (simp add: same_date_Invalid number_less_def valueOf_def)

lemma streak_loop_run:
  assumes "sorted_wrt (\<lambda>a b. b \<le> a) ts"
  shows "\<exists>r. fst (streak_loop tz (map Time_Value ts) (s, Time_Value t)) = s + r
           \<and> (\<forall>i<r. local_day tz t - int i \<in> local_day tz ` set ts)
           \<and> local_day tz t - int r \<notin> local_day tz ` set ts"
  using assms
proof (induction ts arbitrary: s t)
  case Nil
  show ?case by simp
next
  case (Cons a ts)
  have srt: "sorted_wrt (\<lambda>a b. b \<le> a) ts" and le: "\<forall>b\<in>set ts. b \<le> a"
    using Cons.prems by simp_all
  consider (same) "local_day tz a = local_day tz t"
    | (older) "local_day tz a \<noteq> local_day tz t" "a < t"
    | (newer) "local_day tz a \<noteq> local_day tz t" "\<not> a < t"
    by blast
  then show ?case
  proof cases
    case same
    from Cons.IH [OF srt, of "s + 1" "t - msPerDay"] obtain r where
      r: "fst (streak_loop tz (map Time_Value ts) (s + 1, Time_Value (t - msPerDay))) = s + 1 + r"
        "\<forall>i<r. local_day tz t - 1 - int i \<in> local_day tz ` set ts"
        "local_day tz t - 1 - int r \<notin> local_day tz ` set ts"
      by (auto simp: local_day_previous)
    have "\<forall>i<Suc r. local_day tz t - int i \<in> local_day tz ` set (a # ts)"
    proof (intro allI impI)
      fix i assume i: "i < Suc r"
      show "local_day tz t - int i \<in> local_day tz ` set (a # ts)"
      proof (cases i)
        case 0
        then show ?thesis using same by simp
      next
        case (Suc k)
        with i r(2) have "local_day tz t - 1 - int k \<in> local_day tz ` set ts" by simp
        then show ?thesis using Suc by (simp add: algebra_simps)
      qed
    qed
    moreover have "local_day tz t - int (Suc r) \<notin> local_day tz ` set (a # ts)"
      using r(3) same by (auto simp: algebra_simps)
    moreover have "fst (streak_loop tz (map Time_Value (a # ts)) (s, Time_Value t)) = s + Suc r"
      using same r(1) by (simp add: streak_loop_step del: streak_loop.simps)
    ultimately show ?thesis by blast
  next
    case older
    have "local_day tz b < local_day tz t" if "b \<in> set (a # ts)" for b
    proof -
      from that le have "b \<le> a" by auto
      then have "local_day tz b \<le> local_day tz a" by (rule local_day_mono)
      moreover have "local_day tz a \<le> local_day tz t"
        using older(2) by (intro local_day_mono) simp
      ultimately show ?thesis using older(1) by simp
    qed
    then have "local_day tz t - int 0 \<notin> local_day tz ` set (a # ts)" by fastforce
    moreover have "fst (streak_loop tz (map Time_Value (a # ts)) (s, Time_Value t)) = s + 0"
      using older by (simp add: streak_loop_step del: streak_loop.simps)
    ultimately show ?thesis by blast
  next
    case newer
    from Cons.IH [OF srt, of s t] obtain r where
      r: "fst (streak_loop tz (map Time_Value ts) (s, Time_Value t)) = s + r"
        "\<forall>i<r. local_day tz t - int i \<in> local_day tz ` set ts"
        "local_day tz t - int r \<notin> local_day tz ` set ts"
      by blast
    have "local_day tz t \<le> local_day tz a"
      using newer(2) by (intro local_day_mono) simp
    with newer(1) have "local_day tz t - int r \<noteq> local_day tz a" by simp
    with r(3) have "local_day tz t - int r \<notin> local_day tz ` set (a # ts)" by simp
    moreover have "\<forall>i<r. local_day tz t - int i \<in> local_day tz ` set (a # ts)"
      using r(2) by simp
    moreover have "fst (streak_loop tz (map Time_Value (a # ts)) (s, Time_Value t)) = s + r"
      using newer r(1) by (simp add: streak_loop_step del: streak_loop.simps)
    ultimately show ?thesis by blast
  qed
qed

lemma insert_sorted_Times:
  "insert_sorted (SortCompare (\<lambda>a b. number_minus (valueOf b) (valueOf a)))
     (Time_Value x) (map Time_Value ys)
   = map Time_Value (insort_key uminus x ys)"
  by (induction ys) (simp_all add: SortCompare_def number_minus_def valueOf_def)

lemma consistent_comparator_Times:
  "consistent_comparator (\<lambda>a b. number_minus (valueOf b) (valueOf a)) (map Time_Value ts)"
  by (auto simp: consistent_comparator_def list_ex_iff SortCompare_def number_minus_def
        valueOf_def)

lemma Array_sort_Times:
  "Array_sort engine (\<lambda>a b. number_minus (valueOf b) (valueOf a)) (map Time_Value ts)
   = map Time_Value (sort_key uminus ts)"
proof -
  have "foldr (insert_sorted (SortCompare (\<lambda>a b. number_minus (valueOf b) (valueOf a))))
          (map Time_Value ts) [] = map Time_Value (sort_key uminus ts)"
    by (induction ts) (simp_all add: insert_sorted_Times)
  then show ?thesis by (simp add: Array_sort_def consistent_comparator_Times)
qed

lemma sorted_descending: "sorted_wrt (\<lambda>a b. b \<le> a) (sort_key uminus (ts :: int list))"
proof -
  have "sorted (map uminus (sort_key uminus ts))" by (rule sorted_sort_key)
  then show ?thesis by (simp add: sorted_map)
qed

lemma valid_dates_Times:
  assumes "\<forall>d\<in>set ds. d \<noteq> Invalid_Date"
  shows "\<exists>ts. ds = map Time_Value ts"
  using assms
proof (induction ds)
  case Nil
  show ?case by simp
next
  case (Cons d ds)
  then obtain ts where "ds = map Time_Value ts" by auto
  moreover from Cons.prems obtain t where "d = Time_Value t" by (cases d) auto
  ultimately have "d # ds = map Time_Value (t # ts)" by simp
  then show ?case by (rule exI)
qed

lemma streak_characterisation:
  assumes "\<forall>j\<in>set journals. new_Date (dateOnly j) \<noteq> Invalid_Date"
  shows "(\<forall>i<streak engine tz new_Date now journals.
            local_day tz now - int i \<in> journal_days tz new_Date journals)
         \<and> local_day tz now - int (streak engine tz new_Date now journals)
             \<notin> journal_days tz new_Date journals"
proof (cases "journals = []")
  case True
  then show ?thesis by (simp add: streak_def journal_days_def date_days_def)
next
  case False
  from assms have "\<forall>d\<in>set (map (\<lambda>j. new_Date (dateOnly j)) journals). d \<noteq> Invalid_Date"
    by simp
  then obtain ts where ts: "map (\<lambda>j. new_Date (dateOnly j)) journals = map Time_Value ts"
    using valid_dates_Times by blast
  have days: "journal_days tz new_Date journals = local_day tz ` set (sort_key uminus ts)"
    by (simp add: journal_days_def ts date_days_Times)
  have "dates engine new_Date journals = map Time_Value (sort_key uminus ts)"
    by (simp add: dates_def ts Array_sort_Times)
  with False have "streak engine tz new_Date now journals
      = fst (streak_loop tz (map Time_Value (sort_key uminus ts)) (0, Time_Value now))"
    by (simp add: streak_def)
  with streak_loop_run [OF sorted_descending, of tz ts 0 now] show ?thesis
    unfolding days by auto
qed

lemma run_unique:
  fixes D :: "int set"
  assumes "\<forall>i<r. c - int i \<in> D" "c - int r \<notin> D" "\<forall>i<r'. c - int i \<in> D" "c - int r' \<notin> D"
  shows "r = r'"
  using assms by (metis linorder_neqE_nat)

section \<open>Rounding to binary64 and to one decimal\<close>


lemma round_half_even_error: "\<bar>of_int (round_half_even r) - r\<bar> \<le> 1 / 2"
proof -
  have fl: "of_int \<lfloor>r\<rfloor> \<le> r" "r < of_int \<lfloor>r\<rfloor> + 1" by linarith+
  consider (lo) "r - of_int \<lfloor>r\<rfloor> < 1 / 2" | (hi) "1 / 2 < r - of_int \<lfloor>r\<rfloor>"
    | (tie) "r - of_int \<lfloor>r\<rfloor> = 1 / 2"
    by linarith
  then show ?thesis
  proof cases
    case lo
    then have "round_half_even r = \<lfloor>r\<rfloor>" by (simp add: round_half_even_def)
    then show ?thesis using fl lo by simp
  next
    case hi
    then have "round_half_even r = \<lfloor>r\<rfloor> + 1" by (simp add: round_half_even_def)
    then show ?thesis using fl hi by simp
  next
    case tie
    then have "round_half_even r = \<lfloor>r\<rfloor> \<or> round_half_even r = \<lfloor>r\<rfloor> + 1"
      by (simp add: round_half_even_def Let_def)
    then show ?thesis using fl tie by auto
  qed
qed

lemma round_half_even_of_int: "round_half_even (of_int k) = k"
  by (simp add: round_half_even_def)

lemma exponent_bounds:
  fixes a :: rat
  assumes "1 \<le> a"
  shows "2 ^ (floorlog 2 (nat \<lfloor>a\<rfloor>) - 1) \<le> a" "a < 2 ^ floorlog 2 (nat \<lfloor>a\<rfloor>)"
proof -
  let ?n = "nat \<lfloor>a\<rfloor>"
  have fl: "1 \<le> \<lfloor>a\<rfloor>" using assms by (simp add: le_floor_iff)
  then have n: "0 < ?n" by simp
  from floorlog_bounds [OF n, of 2]
  have lo: "2 ^ (floorlog 2 ?n - 1) \<le> ?n" and hi: "?n < 2 ^ floorlog 2 ?n" by simp_all
  from lo have "int (2 ^ (floorlog 2 ?n - 1)) \<le> int ?n" by (simp only: of_nat_le_iff)
  then have "2 ^ (floorlog 2 ?n - 1) \<le> \<lfloor>a\<rfloor>" using fl by simp
  then have "(of_int (2 ^ (floorlog 2 ?n - 1)) :: rat) \<le> of_int \<lfloor>a\<rfloor>"
    by (simp only: of_int_le_iff)
  also have "\<dots> \<le> a" by (rule of_int_floor_le)
  finally show "2 ^ (floorlog 2 ?n - 1) \<le> a" by simp
  from hi have "int ?n < int (2 ^ floorlog 2 ?n)" by (simp only: of_nat_less_iff)
  then have "\<lfloor>a\<rfloor> < 2 ^ floorlog 2 ?n" using fl by simp
  then have "a < of_int (2 ^ floorlog 2 ?n)" by (simp only: floor_less_iff)
  then show "a < 2 ^ floorlog 2 ?n" by simp
qed

lemma round_double_positive:
  assumes "1 \<le> a"
  shows "round_double a
         = of_int (round_half_even (a / (2 ^ (floorlog 2 (nat \<lfloor>a\<rfloor>) - 1) / 2 ^ 52)))
           * (2 ^ (floorlog 2 (nat \<lfloor>a\<rfloor>) - 1) / 2 ^ 52)"
proof -
  from assms have "0 < a" by simp
  then have "sgn a = 1" "\<bar>a\<bar> = a" "a \<noteq> 0" by simp_all
  then show ?thesis using assms unfolding round_double_def ulp_def by (simp only: if_False if_True mult_1)
qed

lemma round_double_nat:
  assumes "0 < k" "k < 2 ^ 53"
  shows "round_double (of_nat k) = of_nat k"
proof -
  define e where "e = floorlog 2 k - 1"
  define p where "p = (2::rat) ^ 52"
  have a1: "(1::rat) \<le> of_nat k" using assms(1) by simp
  have fl: "nat \<lfloor>of_nat k :: rat\<rfloor> = k" by simp
  have "floorlog 2 k \<le> 53" using assms(2) by (intro floorlog_leI) simp_all
  then have e52: "e \<le> 52" by (simp add: e_def)
  have p: "p = 2 ^ (52 - e) * 2 ^ e"
    using e52 by (simp add: p_def flip: power_add)
  have pos: "(2::rat) ^ e \<noteq> 0" by simp
  have "of_nat k / (2 ^ e / p) = (of_int (int k * 2 ^ (52 - e)) :: rat)"
    unfolding p using pos by (simp add: field_simps)
  then have m: "round_half_even (of_nat k / (2 ^ e / p)) = int k * 2 ^ (52 - e)"
    by (simp only: round_half_even_of_int)
  have "round_double (of_nat k) = of_int (round_half_even (of_nat k / (2 ^ e / p))) * (2 ^ e / p)"
    using round_double_positive [OF a1] unfolding fl e_def p_def .
  also have "\<dots> = of_int (int k * 2 ^ (52 - e)) * (2 ^ e / p)"
    by (simp only: m)
  also have "\<dots> = of_nat k" unfolding p using pos by (simp add: field_simps)
  finally show ?thesis .
qed

lemma round_double_error:
  assumes "1 \<le> q" "q < 8"
  shows "\<bar>round_double q - q\<bar> \<le> 1 / 2 ^ 51"
proof -
  define e where "e = floorlog 2 (nat \<lfloor>q\<rfloor>) - 1"
  define u where "u = (2::rat) ^ e / 2 ^ 52"
  define m where "m = round_half_even (q / u)"
  have "(2::rat) ^ e \<le> q" using exponent_bounds(1) [OF assms(1)] by (simp add: e_def)
  with assms(2) have "(2::rat) ^ e < 2 ^ 3" by simp
  then have "e < 3" by (simp only: power_strict_increasing_iff)
  then have "(2::rat) ^ e \<le> 2 ^ 2" by (intro power_increasing) simp_all
  then have u4: "u \<le> 4 / 2 ^ 52" unfolding u_def by (simp add: divide_right_mono)
  have u0: "0 < u" by (simp add: u_def)
  have rd: "round_double q = of_int m * u"
    using round_double_positive [OF assms(1)] by (simp only: m_def u_def e_def)
  have "\<bar>of_int m - q / u\<bar> \<le> 1 / 2" unfolding m_def by (rule round_half_even_error)
  then have "\<bar>of_int m - q / u\<bar> * u \<le> 1 / 2 * u" using u0 by (simp only: mult_le_cancel_right_pos)
  moreover have "\<bar>of_int m - q / u\<bar> * u = \<bar>of_int m * u - q\<bar>"
  proof -
    have "\<bar>of_int m - q / u\<bar> * u = \<bar>(of_int m - q / u) * u\<bar>" using u0 by (simp add: abs_mult)
    also have "(of_int m - q / u) * u = of_int m * u - q" using u0 by (simp add: field_simps)
    finally show ?thesis .
  qed
  ultimately have "\<bar>of_int m * u - q\<bar> \<le> 1 / 2 * u" by simp
  also have "\<dots> \<le> 1 / 2 * (4 / 2 ^ 52)" using u4 by simp
  also have "\<dots> = 1 / 2 ^ 51" by simp
  finally show ?thesis by (simp only: rd)
qed

lemma mood_number_range: "1 \<le> mood_number m \<and> mood_number m \<le> 5"
  by (simp add: mood_number_def)

lemma or_3_moodMap:
  assumes "m \<notin> set Object_prototype"
  shows "or_3 (moodMap_get m) = Number_Value (of_nat (mood_number m))"
  using assms by (simp add: or_3_def moodMap_get_def moodMap_def mood_number_def)

lemma totalMood_fold:
  assumes "\<forall>j\<in>set js. mood j \<notin> set Object_prototype" "k + 5 * length js < 2 ^ 53"
  shows "foldl (\<lambda>sum j. plus_property sum (or_3 (moodMap_get (mood j)))) (Total (Num (of_nat k))) js
         = Total (Num (of_nat (k + sum_list (map (\<lambda>j. mood_number (mood j)) js))))"
  using assms
proof (induction js arbitrary: k)
  case Nil
  show ?case by simp
next
  case (Cons j js)
  define M where "M = (2::nat) ^ 53"
  let ?v = "mood_number (mood j)"
  have v: "1 \<le> ?v" "?v \<le> 5" using mood_number_range [of "mood j"] by simp_all
  have ok: "mood j \<notin> set Object_prototype" using Cons.prems(1) by simp
  have "k + 5 * length (j # js) < M" using Cons.prems(2) unfolding M_def .
  then have M: "k + 5 + 5 * length js < M" by simp
  have "0 < k + ?v" using v by linarith
  moreover have "k + ?v < M" using v M by linarith
  ultimately have "round_double (of_nat (k + ?v)) = of_nat (k + ?v)"
    unfolding M_def by (rule round_double_nat)
  then have step: "plus_property (Total (Num (of_nat k))) (or_3 (moodMap_get (mood j)))
                   = Total (Num (of_nat (k + ?v)))"
    by (simp add: or_3_moodMap [OF ok] plus_property_def)
  have "(k + ?v) + 5 * length js < M" using v M by linarith
  then have "foldl (\<lambda>sum j. plus_property sum (or_3 (moodMap_get (mood j))))
               (Total (Num (of_nat (k + ?v)))) js
             = Total (Num (of_nat ((k + ?v) + sum_list (map (\<lambda>j. mood_number (mood j)) js))))"
    unfolding M_def using Cons.prems(1) by (intro Cons.IH) simp_all
  then show ?case
    by (simp only: foldl_Cons step list.map sum_list.Cons add.assoc)
qed

lemma sum_mood_bounds:
  "length js \<le> sum_list (map (\<lambda>j. mood_number (mood j)) js)
   \<and> sum_list (map (\<lambda>j. mood_number (mood j)) js) \<le> 5 * length js"
proof (induction js)
  case Nil
  show ?case by simp
next
  case (Cons j js)
  then show ?case using mood_number_range [of "mood j"] by simp
qed

lemma tenths_close:
  fixes S n :: nat and x :: rat
  assumes n: "0 < n" "n < 2 ^ 32" and x: "\<bar>x - of_nat S / of_nat n\<bar> \<le> 1 / 2 ^ 51"
  shows "\<bar>of_int \<lfloor>x * 10 + 1 / 2\<rfloor> / 10 - of_nat S / of_nat n\<bar> \<le> (1 / 20 :: rat)"
proof (rule ccontr)
  define q where "q = (of_nat S / of_nat n :: rat)"
  define k where "k = \<lfloor>x * 10 + 1 / 2\<rfloor>"
  define N where "N = (of_nat n :: rat)"
  define xN where "xN = x * N"
  have "(of_nat n :: rat) < of_nat (2 ^ 32)" using n(2) by (simp only: of_nat_less_iff)
  then have N: "0 < N" "N < 2 ^ 32" using n(1) by (simp_all add: N_def)
  have qN: "q * N = of_nat S" using n(1) by (simp add: q_def N_def)
  have k: "of_int k \<le> x * 10 + 1 / 2" "x * 10 + 1 / 2 < of_int k + 1"
    unfolding k_def by linarith+
  have x': "x - q \<le> 1 / 2 ^ 51" "q - x \<le> 1 / 2 ^ 51" using x unfolding q_def by linarith+
  have "(x - q) * N \<le> 1 / 2 ^ 51 * N" using x'(1) N(1) by (intro mult_right_mono) simp_all
  then have up: "xN - of_nat S \<le> 1 / 2 ^ 51 * N" by (simp add: xN_def left_diff_distrib qN)
  have "(q - x) * N \<le> 1 / 2 ^ 51 * N" using x'(2) N(1) by (intro mult_right_mono) simp_all
  then have dn: "of_nat S - xN \<le> 1 / 2 ^ 51 * N" by (simp add: xN_def left_diff_distrib qN)
  have small: "1 / 2 ^ 51 * N < 1 / 20" using N(2) by simp
  assume "\<not> \<bar>of_int \<lfloor>x * 10 + 1 / 2\<rfloor> / 10 - of_nat S / of_nat n\<bar> \<le> (1 / 20 :: rat)"
  then have "\<not> \<bar>of_int k / 10 - q\<bar> \<le> 1 / 20" unfolding k_def q_def .
  then consider (below) "20 * q < 2 * of_int k - 1" | (above) "2 * of_int k + 1 < 20 * q"
    by linarith
  then show False
  proof cases
    case below
    then have "20 * q * N < (2 * of_int k - 1) * N" using N(1) by (simp only: mult_strict_right_mono)
    then have "20 * of_nat S < (2 * of_int k - 1) * N" using qN by (simp add: mult.assoc)
    then have "(of_int (20 * int S) :: rat) < of_int ((2 * k - 1) * int n)"
      by (simp add: N_def)
    then have "20 * int S < (2 * k - 1) * int n" by (simp only: of_int_less_iff)
    then have "20 * int S + 1 \<le> (2 * k - 1) * int n" by simp
    then have "(of_int (20 * int S + 1) :: rat) \<le> of_int ((2 * k - 1) * int n)"
      by (simp only: of_int_le_iff)
    then have 1: "20 * of_nat S + 1 \<le> (2 * of_int k - 1) * N" by (simp add: N_def)
    have "2 * of_int k - 1 \<le> 20 * x" using k(1) by linarith
    then have "(2 * of_int k - 1) * N \<le> 20 * x * N" using N(1) by (simp only: mult_right_mono less_imp_le)
    then have 2: "(2 * of_int k - 1) * N \<le> 20 * xN" by (simp add: xN_def mult.assoc)
    from 1 2 up small show False by linarith
  next
    case above
    then have "(2 * of_int k + 1) * N < 20 * q * N" using N(1) by (simp only: mult_strict_right_mono)
    then have "(2 * of_int k + 1) * N < 20 * of_nat S" using qN by (simp add: mult.assoc)
    then have "(of_int ((2 * k + 1) * int n) :: rat) < of_int (20 * int S)"
      by (simp add: N_def)
    then have "(2 * k + 1) * int n < 20 * int S" by (simp only: of_int_less_iff)
    then have "(2 * k + 1) * int n + 1 \<le> 20 * int S" by simp
    then have "(of_int ((2 * k + 1) * int n + 1) :: rat) \<le> of_int (20 * int S)"
      by (simp only: of_int_le_iff)
    then have 1: "(2 * of_int k + 1) * N + 1 \<le> 20 * of_nat S" by (simp add: N_def)
    have "20 * x \<le> 2 * of_int k + 1" using k(2) by linarith
    then have "20 * x * N \<le> (2 * of_int k + 1) * N" using N(1) by (simp only: mult_right_mono less_imp_le)
    then have 2: "20 * xN \<le> (2 * of_int k + 1) * N" by (simp add: xN_def mult.assoc)
    from 1 2 dn small show False by linarith
  qed
qed

section \<open>Decimal numerals and the average mood\<close>


lemma digits_less_10: "n < 10 \<Longrightarrow> digits n = [digit_char n]"
  by (simp add: digits.simps)

lemma digits_ge_10: "\<not> n < 10 \<Longrightarrow> digits n = digits (n div 10) @ [digit_char (n mod 10)]"
  by (subst digits.simps) simp

lemma digits_nonempty: "digits n \<noteq> []"
  by (cases "n < 10") (simp_all add: digits_less_10 digits_ge_10)

lemma digit_cases:
  assumes "0 \<le> d" "d < 10"
  shows "d = 0 \<or> d = 1 \<or> d = 2 \<or> d = 3 \<or> d = 4 \<or> d = 5 \<or> d = 6 \<or> d = 7 \<or> d = 8
      \<or> d = (9::int)"
  using assms by arith

lemma digit_value_char:
  assumes "0 \<le> d" "d < 10"
  shows "digit_value (digit_char d) = Some d"
  using digit_cases [OF assms] by (auto simp: digit_value_def digit_char_def decimal_digits_def)

lemma digit_char_not_point:
  assumes "0 \<le> d" "d < 10"
  shows "CHR ''.'' \<noteq> digit_char d"
  using digit_cases [OF assms] by (auto simp: digit_char_def decimal_digits_def)

lemma read_digits_snoc:
  "read_digits start (s @ [c]) =
     (case (read_digits start s, digit_value c) of
        (Some n, Some d) \<Rightarrow> Some (10 * n + d) | _ \<Rightarrow> None)"
  by (simp add: read_digits_def)

lemma digits_value: "0 \<le> n \<Longrightarrow> read_digits (Some 0) (digits n) = Some n"
proof (induction n rule: digits.induct)
  case (1 n)
  show ?case
  proof (cases "n < 10")
    case True
    with 1 show ?thesis by (simp add: digits_less_10 digit_value_char read_digits_def)
  next
    case False
    with 1 show ?thesis by (simp add: digits_ge_10 digit_value_char read_digits_snoc)
  qed
qed

lemma int_of_digits_digits: "0 \<le> n \<Longrightarrow> int_of_digits (digits n) = Some n"
  using digits_value [of n] by (simp add: int_of_digits_def digits_nonempty read_digits_def)

lemma point_not_digit: "0 \<le> n \<Longrightarrow> CHR ''.'' \<notin> set (digits n)"
proof (induction n rule: digits.induct)
  case (1 n)
  show ?case
  proof (cases "n < 10")
    case True
    with 1 show ?thesis by (simp add: digits_less_10 digit_char_not_point)
  next
    case False
    with 1 show ?thesis by (simp add: digits_ge_10 digit_char_not_point)
  qed
qed

lemma digits_0: "digits 0 = ''0''"
  by (simp add: digits_less_10 digit_char_def decimal_digits_def)

lemma fixed1_string_parts:
  assumes "0 \<le> n"
  shows "fixed1_string n = digits (n div 10) @ ''.'' @ digits (n mod 10)"
proof (cases "n < 10")
  case True
  with assms have "n div 10 = 0" "n mod 10 = n" by simp_all
  then show ?thesis using True by (simp add: fixed1_string_def digits_less_10 digits_0)
next
  case False
  then have "digits (n mod 10) = [digit_char (n mod 10)]" by (simp add: digits_less_10)
  moreover have "digits (n div 10) \<noteq> []" by (rule digits_nonempty)
  ultimately show ?thesis using False by (simp add: fixed1_string_def digits_ge_10 Let_def)
qed

lemma split_on_absent: "c \<notin> set b \<Longrightarrow> split_on c b = [b]"
  by (induction b) auto

lemma split_on_once: "c \<notin> set a \<Longrightarrow> c \<notin> set b \<Longrightarrow> split_on c (a @ c # b) = [a, b]"
  by (induction a) (auto simp: split_on_absent)

lemma decimal_value_fixed1:
  assumes "0 \<le> n"
  shows "decimal_value (fixed1_string n) = Some (of_int n / 10)"
proof -
  have "split_on CHR ''.'' (fixed1_string n) = [digits (n div 10), digits (n mod 10)]"
    using split_on_once [OF point_not_digit point_not_digit, of "n div 10" "n mod 10"] assms
    by (simp add: fixed1_string_parts)
  moreover have "length (digits (n mod 10)) = 1" by (simp add: digits_less_10)
  moreover have "(of_int (n div 10) + of_int (n mod 10) / 10 :: rat) = of_int n / 10"
  proof -
    have "(of_int n :: rat) = of_int (10 * (n div 10) + n mod 10)" by simp
    also have "\<dots> = 10 * of_int (n div 10) + of_int (n mod 10)"
      by (simp only: of_int_add of_int_mult of_int_numeral)
    finally show ?thesis by simp
  qed
  moreover have "0 \<le> n div 10" "0 \<le> n mod 10" using assms by simp_all
  ultimately show ?thesis by (simp add: decimal_value_def int_of_digits_digits)
qed

lemma averageMood_value:
  assumes "journals \<noteq> []" "length journals < 2 ^ 32"
    "\<forall>j\<in>set journals. mood j \<notin> set Object_prototype"
  shows "averageMood journals = JString (toFixed1_digits (round_double (mean_mood journals)))"
    and "1 \<le> mean_mood journals" and "mean_mood journals \<le> 5"
    and "\<bar>round_double (mean_mood journals) - mean_mood journals\<bar> \<le> 1 / 2 ^ 51"
proof -
  define n where "n = length journals"
  define S where "S = sum_list (map (\<lambda>j. mood_number (mood j)) journals)"
  define q where "q = mean_mood journals"
  have q: "q = of_nat S / of_nat n" by (simp add: q_def mean_mood_def S_def n_def)
  have n: "0 < n" "n < 2 ^ 32" using assms(1,2) by (simp_all add: n_def)
  have "5 * n < 5 * 2 ^ 32" using n(2) by simp
  also have "\<dots> < (2::nat) ^ 53" by simp
  finally have "0 + 5 * length journals < 2 ^ 53" by (simp add: n_def)
  from totalMood_fold [OF assms(3) this]
  have total: "totalMood journals = Total (Num (of_nat S))" by (simp add: totalMood_def S_def)
  have Sn: "n \<le> S" "S \<le> 5 * n" using sum_mood_bounds [of journals] by (simp_all add: S_def n_def)
  have nq: "(0::rat) < of_nat n" using n(1) by simp
  have "(of_nat n :: rat) \<le> of_nat S" using Sn(1) by (simp only: of_nat_le_iff)
  then have q1: "1 \<le> q" using nq by (simp add: q)
  have "(of_nat S :: rat) \<le> of_nat (5 * n)" using Sn(2) by (simp only: of_nat_le_iff)
  then have q5: "q \<le> 5" using nq by (simp add: q field_simps)
  then have q8: "q < 8" by simp
  have err: "\<bar>round_double q - q\<bar> \<le> 1 / 2 ^ 51" by (rule round_double_error [OF q1 q8])
  have "(1 / 2 ^ 51 :: rat) < 1" by simp
  with err q1 have x0: "0 < round_double q" by linarith
  have "averageMood journals = JString (toFixed1_digits (round_double q))"
    using assms(1) x0 n(1)
    by (simp add: averageMood_def total divide_length_def toFixed1_def q flip: n_def)
  then show "averageMood journals = JString (toFixed1_digits (round_double (mean_mood journals)))"
    by (simp only: q_def)
  show "1 \<le> mean_mood journals" "mean_mood journals \<le> 5"
    "\<bar>round_double (mean_mood journals) - mean_mood journals\<bar> \<le> 1 / 2 ^ 51"
    using q1 q5 err by (simp_all only: q_def)
qed

lemma averageMood_rounds:
  assumes "journals \<noteq> []" "length journals < 2 ^ 32"
    "\<forall>j\<in>set journals. mood j \<notin> set Object_prototype"
  shows "\<exists>k. 10 \<le> k \<and> k \<le> 50 \<and> averageMood journals = JString (fixed1_string k)
             \<and> \<bar>of_int k / 10 - mean_mood journals\<bar> \<le> 1 / 20"
proof -
  define n where "n = length journals"
  define S where "S = sum_list (map (\<lambda>j. mood_number (mood j)) journals)"
  define x where "x = round_double (mean_mood journals)"
  define z where "z = \<lfloor>x * 10 + 1 / 2\<rfloor>"
  note v = averageMood_value [OF assms]
  have n: "0 < n" "n < 2 ^ 32" using assms(1,2) by (simp_all add: n_def)
  have m: "mean_mood journals = of_nat S / of_nat n" by (simp add: mean_mood_def S_def n_def)
  have avg: "averageMood journals = JString (fixed1_string z)"
    using v(1) by (simp add: toFixed1_digits_def z_def x_def)
  have "\<bar>x - of_nat S / of_nat n\<bar> \<le> 1 / 2 ^ 51" using v(4) by (simp only: x_def m)
  then have "\<bar>of_int z / 10 - of_nat S / of_nat n\<bar> \<le> (1 / 20 :: rat)"
    unfolding z_def by (rule tenths_close [OF n])
  then have close: "\<bar>of_int z / 10 - mean_mood journals\<bar> \<le> 1 / 20" by (simp only: m)
  with v(2,3) have "(19 / 2 :: rat) \<le> of_int z" "(of_int z :: rat) \<le> 101 / 2" by linarith+
  then have "(of_int 9 :: rat) < of_int z" "(of_int z :: rat) < of_int 51" by simp_all
  then have "9 < z" "z < 51" by (simp_all only: of_int_less_iff)
  then have "10 \<le> z" "z \<le> 50" by simp_all
  with avg close show ?thesis by blast
qed

section \<open>Further lemmas on the handler\<close>

















lemma streak_loop_bound:
  "fst (streak_loop tz ds (s, today)) \<le> s + length (filter (\<lambda>d. d \<noteq> Invalid_Date) ds)"
proof (induction ds arbitrary: s today)
  case Nil
  show ?case by simp
next
  case (Cons d ds)
  show ?case
  proof (cases d)
    case Invalid_Date
    with Cons [of s today] show ?thesis by (simp only: streak_loop_Invalid) simp
  next
    case (Time_Value a)
    with Cons [of "s + 1"] Cons [of s today] show ?thesis
      by (auto split: if_splits intro: le_SucI order_trans)
  qed
qed

lemma insert_sorted_filter:
  "length (filter P (insert_sorted cmp x ys)) = length (filter P (x # ys))"
  by (induction ys) auto

lemma Array_sort_filter:
  "length (filter P (Array_sort engine comparefn xs)) = length (filter P xs)"
proof (cases "consistent_comparator comparefn xs")
  case True
  have "length (filter P (foldr (insert_sorted c) zs [])) = length (filter P zs)"
    for c :: "'a \<Rightarrow> 'a \<Rightarrow> int" and zs
    by (induction zs) (simp_all add: insert_sorted_filter)
  with True show ?thesis by (simp add: Array_sort_def)
next
  case False
  show ?thesis
  proof (cases "mset (engine comparefn xs) = mset xs")
    case same: True
    have "length (filter P (engine comparefn xs))
        = size (filter_mset P (mset (engine comparefn xs)))"
      by (simp only: mset_filter [symmetric] size_mset)
    also have "\<dots> = length (filter P xs)"
      by (simp only: same mset_filter [symmetric] size_mset)
    finally show ?thesis using False same by (simp add: Array_sort_def)
  next
    case other: False
    with False show ?thesis by (simp add: Array_sort_def)
  qed
qed

lemma streak_le_wellformed:
  "streak engine tz new_Date now journals \<le> length journals - malformed_count new_Date journals"
proof -
  let ?ds = "map (\<lambda>j. new_Date (dateOnly j)) journals"
  have "length (filter (\<lambda>d. d \<noteq> Invalid_Date) (dates engine new_Date journals))
        = length (filter (\<lambda>d. d \<noteq> Invalid_Date) ?ds)"
    by (simp only: dates_def Array_sort_filter)
  also have "\<dots> = length (filter (\<lambda>j. new_Date (dateOnly j) \<noteq> Invalid_Date) journals)"
    by (simp add: filter_map comp_def)
  also have "\<dots> = length journals - malformed_count new_Date journals"
    using sum_length_filter_compl [of "\<lambda>j. new_Date (dateOnly j) = Invalid_Date" journals]
    by (simp add: malformed_count_def)
  finally show ?thesis
    using streak_loop_bound [of tz "dates engine new_Date journals" 0 "Time_Value now"]
    by (simp add: streak_def)
qed

lemma run_end_mset:
  "run_end cmp isDescending previousElement xs = (run, rest) \<Longrightarrow> mset run + mset rest = mset xs"
  by (induction xs arbitrary: previousElement run rest)
     (auto simp: Let_def split: if_splits prod.splits)

lemma CountAndMakeRun_mset:
  "CountAndMakeRun cmp xs = (run, rest) \<Longrightarrow> mset run + mset rest = mset xs"
  by (cases "(cmp, xs)" rule: CountAndMakeRun.cases)
     (auto simp: Let_def split: if_splits prod.splits dest: run_end_mset)

lemma insert_at_mset: "mset (take k run @ pivot # drop k run) = add_mset pivot (mset run)"
proof -
  have "mset (take k run) + mset (drop k run) = mset run"
    by (simp flip: mset_append)
  then show ?thesis by simp
qed

lemma BinaryInsertionSort_mset:
  "mset (BinaryInsertionSort cmp run xs) = mset run + mset xs"
  by (induction xs arbitrary: run) (simp_all add: Let_def insert_at_mset del: mset_append)

lemma V8_sort_mset:
  "length xs < 64 \<Longrightarrow> mset (V8_sort merge_runs comparefn xs) = mset xs"
  by (auto simp: V8_sort_def BinaryInsertionSort_mset split: prod.splits
        dest: CountAndMakeRun_mset)

lemma dates_valid:
  assumes "\<not> list_ex (\<lambda>j. new_Date (dateOnly j) = Invalid_Date) journals"
  shows "dates engine new_Date journals
       = foldr (insert_sorted (SortCompare (\<lambda>a b. number_minus (valueOf b) (valueOf a))))
           (map (\<lambda>j. new_Date (dateOnly j)) journals) []"
proof -
  from assms have "\<forall>d\<in>set (map (\<lambda>j. new_Date (dateOnly j)) journals). d \<noteq> Invalid_Date"
    by (auto simp: list_ex_iff)
  then obtain ts where "map (\<lambda>j. new_Date (dateOnly j)) journals = map Time_Value ts"
    using valid_dates_Times by blast
  then show ?thesis by (simp add: dates_def Array_sort_def consistent_comparator_Times)
qed

lemma dates_V8:
  assumes "list_ex (\<lambda>j. new_Date (dateOnly j) = Invalid_Date) journals" "length journals < 64"
  shows "dates (V8_sort merge_runs) new_Date journals
       = V8_sort merge_runs (\<lambda>a b. number_minus (valueOf b) (valueOf a))
           (map (\<lambda>j. new_Date (dateOnly j)) journals)"
proof -
  let ?ds = "map (\<lambda>j. new_Date (dateOnly j)) journals"
  from assms(1) have "Invalid_Date \<in> set ?ds" by (force simp: list_ex_iff)
  then have "list_ex (\<lambda>a. list_ex (\<lambda>b. number_minus (valueOf b) (valueOf a) = None) ?ds) ?ds"
    unfolding list_ex_iff
    by (intro bexI [of _ Invalid_Date]) (simp_all add: number_minus_def valueOf_def)
  then have "\<not> consistent_comparator (\<lambda>a b. number_minus (valueOf b) (valueOf a)) ?ds"
    by (simp add: consistent_comparator_def)
  moreover have "length ?ds < 64" using assms(2) by simp
  ultimately show ?thesis by (simp add: dates_def Array_sort_def Let_def V8_sort_mset)
qed

lemma journal_days_insert:
  "journal_days tz new_Date (xs @ e # ys)
   = date_days tz [new_Date (dateOnly e)] \<union> journal_days tz new_Date (xs @ ys)"
  by (auto simp: journal_days_def date_days_def)

lemma streak_unique:
  assumes "\<forall>j\<in>set js1. new_Date (dateOnly j) \<noteq> Invalid_Date"
    "\<forall>j\<in>set js2. new_Date (dateOnly j) \<noteq> Invalid_Date"
    "journal_days tz new_Date js1 = journal_days tz new_Date js2"
    "local_day tz now1 = local_day tz now2"
  shows "streak engine tz new_Date now1 js1 = streak engine tz new_Date now2 js2"
  using streak_characterisation [OF assms(1), of engine tz now1]
    streak_characterisation [OF assms(2), of engine tz now2]
  unfolding assms(3) assms(4)
  by (intro run_unique [of _ "local_day tz now2" "journal_days tz new_Date js2"]) simp_all

lemma streak_zero_without_today:
  assumes "\<forall>j\<in>set journals. new_Date (dateOnly j) \<noteq> Invalid_Date"
    "local_day tz now \<notin> journal_days tz new_Date journals"
  shows "streak engine tz new_Date now journals = 0"
proof (rule ccontr)
  assume "streak engine tz new_Date now journals \<noteq> 0"
  then have "0 < streak engine tz new_Date now journals" by simp
  with streak_characterisation [OF assms(1), of engine tz now]
  have "local_day tz now - int 0 \<in> journal_days tz new_Date journals" by blast
  with assms(2) show False by simp
qed

lemma streak_same_day_valid:
  assumes "\<forall>j\<in>set (xs @ e # ys). new_Date (dateOnly j) \<noteq> Invalid_Date"
    "date_days tz [new_Date (dateOnly e)] \<subseteq> journal_days tz new_Date (xs @ ys)"
  shows "streak engine tz new_Date now (xs @ e # ys) = streak engine tz new_Date now (xs @ ys)"
proof -
  from assms(2)
  have "journal_days tz new_Date (xs @ e # ys) = journal_days tz new_Date (xs @ ys)"
    unfolding journal_days_insert by blast
  moreover from assms(1) have "\<forall>j\<in>set (xs @ ys). new_Date (dateOnly j) \<noteq> Invalid_Date"
    by simp
  ultimately show ?thesis using assms(1) by (intro streak_unique) simp_all
qed

lemma streak_two_today:
  assumes "new_Date (dateOnly e1) = Time_Value a" "new_Date (dateOnly e2) = Time_Value b"
    "local_day tz a = local_day tz now" "local_day tz b = local_day tz now"
  shows "streak engine tz new_Date now [e1, e2] = 1"
proof -
  define r where "r = streak engine tz new_Date now [e1, e2]"
  from assms have days: "journal_days tz new_Date [e1, e2] = {local_day tz now}"
    by (simp add: journal_days_def date_days_def)
  from assms have "\<forall>j\<in>set [e1, e2]. new_Date (dateOnly j) \<noteq> Invalid_Date" by simp
  from streak_characterisation [OF this, of engine tz now]
  have run: "\<forall>i<r. local_day tz now - int i = local_day tz now"
    and stop: "local_day tz now - int r \<noteq> local_day tz now"
    unfolding days r_def by simp_all
  from stop have "r \<noteq> 0" by auto
  moreover have "r < 2"
  proof (rule ccontr)
    assume "\<not> r < 2"
    then have "1 < r" by simp
    with run have "local_day tz now - int 1 = local_day tz now" by blast
    then show False by simp
  qed
  ultimately show ?thesis unfolding r_def by simp
qed

lemma json_number_fixed1: "0 \<le> k \<Longrightarrow> json_number (JString (fixed1_string k)) = Some (of_int k / 10)"
  by (simp add: json_number_def decimal_value_fixed1)

lemma averageMood_whole:
  assumes "journals \<noteq> []" "length journals < 2 ^ 32"
    "\<forall>j\<in>set journals. mood j \<notin> set Object_prototype"
    "sum_list (map (\<lambda>j. mood_number (mood j)) journals) = v * length journals" "v < 2 ^ 10"
  shows "averageMood journals = JString (fixed1_string (10 * int v))"
proof -
  have n: "0 < length journals" using assms(1) by simp
  then have m: "mean_mood journals = of_nat v" by (simp add: mean_mood_def assms(4))
  have "1 \<le> mean_mood journals" by (rule averageMood_value(2) [OF assms(1-3)])
  then have "(of_nat 1 :: rat) \<le> of_nat v" by (simp add: m)
  then have v: "0 < v" by (simp only: of_nat_le_iff)
  have "v < 2 ^ 10" by (rule assms(5))
  also have "\<dots> < (2::nat) ^ 53" by simp
  finally have rd: "round_double (of_nat v) = of_nat v" using v by (intro round_double_nat)
  have fl: "\<lfloor>(of_nat v :: rat) * 10 + 1 / 2\<rfloor> = 10 * int v"
    by (rule floor_unique) simp_all
  show ?thesis
    by (simp only: averageMood_value(1) [OF assms(1-3)] m rd toFixed1_digits_def fl)
qed

lemma fixed1_examples:
  "fixed1_string 40 = ''4.0''" "fixed1_string 30 = ''3.0''" "fixed1_string 43 = ''4.3''"
  by code_simp+

lemma toFixed1_examples:
  "toFixed1_digits (round_double (23 / 20)) = ''1.1''"
  "toFixed1_digits (round_double (5 / 4)) = ''1.3''"
  "toFixed1_digits (round_double (13 / 3)) = ''4.3''"
  by code_simp+

lemma averageMood_Happy: "averageMood [entry ''Happy'' d] = JString ''4.0''"
  using averageMood_whole [of "[entry ''Happy'' d]" 4]
  by (simp add: entry_def mood_number_def Object_prototype_def fixed1_examples)

lemma averageMood_1_5:
  "averageMood [entry ''Very Sad'' d, entry ''Very Happy'' d'] = JString ''3.0''"
  using averageMood_whole [of "[entry ''Very Sad'' d, entry ''Very Happy'' d']" 3]
  by (simp add: entry_def mood_number_def Object_prototype_def fixed1_examples)

lemma averageMood_ties:
  "averageMood (replicate 17 (entry ''Very Sad'' d) @ replicate 3 (entry ''Sad'' d)) = JString ''1.1''"
  "averageMood (replicate 3 (entry ''Very Sad'' d) @ [entry ''Sad'' d]) = JString ''1.3''"
proof -
  let ?a = "replicate 17 (entry ''Very Sad'' d) @ replicate 3 (entry ''Sad'' d)"
  let ?b = "replicate 3 (entry ''Very Sad'' d) @ [entry ''Sad'' d]"
  have ok: "\<forall>j\<in>set ?a. mood j \<notin> set Object_prototype" "\<forall>j\<in>set ?b. mood j \<notin> set Object_prototype"
    by (auto simp: entry_def Object_prototype_def)
  have "mean_mood ?a = 23 / 20" "mean_mood ?b = 5 / 4"
    by (simp_all add: mean_mood_def entry_def mood_number_def sum_list_replicate)
  with averageMood_value(1) [OF _ _ ok(1)] averageMood_value(1) [OF _ _ ok(2)]
  show "averageMood ?a = JString ''1.1''" "averageMood ?b = JString ''1.3''"
    by (simp_all add: toFixed1_examples)
qed

lemma averageMood_constructor: "averageMood [entry ''constructor'' d] = JString ''NaN''"
  by (simp add: averageMood_def totalMood_def entry_def moodMap_get_def moodMap_def
      Object_prototype_def or_3_def plus_property_def divide_length_def toFixed1_def)

lemma moods_map_to_3: "\<forall>m\<in>set moods. mood_number m = 3 \<and> m \<notin> set Object_prototype"
  by (simp add: moods_def mood_number_def Object_prototype_def)

lemma averageMood_moods:
  assumes "journals \<noteq> []" "length journals < 2 ^ 32" "\<forall>j\<in>set journals. mood j \<in> set moods"
  shows "averageMood journals = JString ''3.0''"
proof -
  from assms(3) moods_map_to_3
  have ok: "\<forall>j\<in>set journals. mood_number (mood j) = 3 \<and> mood j \<notin> set Object_prototype"
    by blast
  then have "sum_list (map (\<lambda>j. mood_number (mood j)) journals) = 3 * length journals"
    by (induction journals) simp_all
  with averageMood_whole [of journals 3] assms(1,2) ok show ?thesis
    by (simp add: fixed1_examples)
qed

subsection \<open>Evaluated examples\<close>

lemma parse_Nov:
  "parse_DateString 0 ''Fri Nov 06 2026'' = Time_Value 1793923200000"
  "parse_DateString 0 ''Sat Nov 07 2026'' = Time_Value 1794009600000"
  "parse_DateString 0 ''Sun Nov 08 2026'' = Time_Value 1794096000000"
  "parse_DateString 0 ''Mon Nov 09 2026'' = Time_Value 1794182400000"
  "parse_DateString 0 ''Tue Nov 10 2026'' = Time_Value 1794268800000"
  "parse_DateString 0 ''not a date'' = Invalid_Date"
  by code_simp+


lemma streak_loop_Nil: "streak_loop tz [] st = st"
  by (cases st) simp

lemmas example_simps =
  streak_def dates_valid dates_V8 V8_sort_def SortCompare_def
  binary_search.simps entry_def parse_Nov streak_loop_step streak_loop_Nil
  streak_loop_Invalid local_day_def Day_def LocalTime_def msPerDay_def number_minus_def
  valueOf_def noon_Nov_10_def one_hour_def journal_days_def date_days_def

lemma dates_V8_examples:
  "dates (V8_sort merge_runs) (parse_DateString 0)
     [entry ''Happy'' ''Sun Nov 08 2026'', entry ''Sad'' ''not a date'',
      entry ''Happy'' ''Tue Nov 10 2026'']
   = [Time_Value 1794096000000, Invalid_Date, Time_Value 1794268800000]"
  "dates (V8_sort merge_runs) (parse_DateString 0)
     [entry ''Sad'' ''Tue Nov 10 2026'', entry ''Happy'' ''Sun Nov 08 2026'',
      entry ''Sad'' ''not a date'', entry ''Happy'' ''Tue Nov 10 2026'']
   = [Time_Value 1794268800000, Time_Value 1794096000000, Invalid_Date,
      Time_Value 1794268800000]"
  "dates (V8_sort merge_runs) (parse_DateString 0)
     [entry ''Happy'' ''Sun Nov 08 2026'', entry ''Happy'' ''Tue Nov 10 2026'',
      entry ''Sad'' ''not a date'', entry ''Happy'' ''Mon Nov 09 2026'']
   = [Time_Value 1794268800000, Time_Value 1794182400000, Time_Value 1794096000000,
      Invalid_Date]"
  "dates (V8_sort merge_runs) (parse_DateString 0)
     [entry ''Happy'' ''Mon Nov 09 2026'', entry ''Happy'' ''Tue Nov 10 2026'',
      entry ''Happy'' ''Sun Nov 08 2026'']
   = [Time_Value 1794268800000, Time_Value 1794182400000, Time_Value 1794096000000]"
  by (simp_all add: example_simps)

lemma streak_10_9_8_6:
  "streak engine 0 (parse_DateString 0) noon_Nov_10
     [entry ''Happy'' ''Fri Nov 06 2026'', entry ''Sad'' ''Tue Nov 10 2026'',
      entry ''Happy'' ''Sun Nov 08 2026'', entry ''Neutral'' ''Mon Nov 09 2026''] = 3"
  by (simp add: example_simps del: streak_loop.simps)

lemma streak_9_8_7:
  "streak engine 0 (parse_DateString 0) noon_Nov_10
     [entry ''Happy'' ''Sat Nov 07 2026'', entry ''Happy'' ''Mon Nov 09 2026'',
      entry ''Happy'' ''Sun Nov 08 2026''] = 0"
  by (simp add: example_simps del: streak_loop.simps)

lemma streak_none: "streak engine tz new_Date now [] = 0"
  by (simp add: streak_def)

lemma streak_one_entry:
  "streak engine 0 (parse_DateString 0) noon_Nov_10 [entry ''Happy'' ''Tue Nov 10 2026''] = 1"
  "streak engine 0 (parse_DateString 0) (noon_Nov_10 + msPerDay)
     [entry ''Happy'' ''Tue Nov 10 2026''] = 0"
  "streak engine 0 (parse_DateString 0) noon_Nov_10 [entry ''Happy'' ''Fri Nov 06 2026''] = 0"
  "streak (V8_sort merge_runs) 0 (parse_DateString 0) noon_Nov_10
     [entry ''Happy'' ''not a date''] = 0"
  "streak (V8_sort merge_runs) 0 (parse_DateString 0) noon_Nov_10
     [entry ''Happy'' ''Tue Nov 10 2026'', entry ''Sad'' ''not a date''] = 1"
  by (simp_all add: example_simps del: streak_loop.simps)

lemma streak_unparseable:
  "streak (V8_sort merge_runs) 0 (parse_DateString 0) noon_Nov_10
     [entry ''Happy'' ''Sun Nov 08 2026'', entry ''Sad'' ''not a date'',
      entry ''Happy'' ''Tue Nov 10 2026''] = 0"
  "streak (V8_sort merge_runs) 0 (parse_DateString 0) noon_Nov_10
     [entry ''Happy'' ''Tue Nov 10 2026'', entry ''Sad'' ''not a date'',
      entry ''Happy'' ''Sun Nov 08 2026''] = 1"
  "streak (V8_sort merge_runs) 0 (parse_DateString 0) noon_Nov_10
     [entry ''Sad'' ''Tue Nov 10 2026'', entry ''Happy'' ''Sun Nov 08 2026'',
      entry ''Sad'' ''not a date'', entry ''Happy'' ''Tue Nov 10 2026''] = 1"
  "streak (V8_sort merge_runs) 0 (parse_DateString 0) noon_Nov_10
     [entry ''Happy'' ''Sun Nov 08 2026'', entry ''Happy'' ''Tue Nov 10 2026'',
      entry ''Sad'' ''not a date'', entry ''Happy'' ''Mon Nov 09 2026''] = 3"
  by (simp_all add: example_simps del: streak_loop.simps)

section \<open>The claims about the analytics\<close>

text \<open>
  C2. With an entry whose date does not parse, the streak is not the number of consecutive
  days ending today that have an entry. For an invalid date the comparator
  \<^verbatim>\<open>(a, b) => b - a\<close> returns \<^verbatim>\<open>NaN\<close>; the sort leaves entries dated 8 November,
  \<^verbatim>\<open>"not a date"\<close> and 10 November in this order, and the loop stops at 8 November. At noon
  on 10 November the streak is 0, although today has an entry and yesterday has none, which
  makes one day. The same entries in the order 10 November, \<^verbatim>\<open>"not a date"\<close>, 8 November
  give 1.
\<close>

theorem streak_unparseable_date:
  "\<forall>merge_runs.
     dates (V8_sort merge_runs) (parse_DateString 0)
       [entry ''Happy'' ''Sun Nov 08 2026'', entry ''Sad'' ''not a date'',
        entry ''Happy'' ''Tue Nov 10 2026'']
     = [Time_Value 1794096000000, Invalid_Date, Time_Value 1794268800000]
   \<and> streak (V8_sort merge_runs) 0 (parse_DateString 0) noon_Nov_10
       [entry ''Happy'' ''Sun Nov 08 2026'', entry ''Sad'' ''not a date'',
        entry ''Happy'' ''Tue Nov 10 2026''] = 0
   \<and> local_day 0 noon_Nov_10
       \<in> journal_days 0 (parse_DateString 0)
           [entry ''Happy'' ''Sun Nov 08 2026'', entry ''Sad'' ''not a date'',
            entry ''Happy'' ''Tue Nov 10 2026'']
   \<and> local_day 0 noon_Nov_10 - 1
       \<notin> journal_days 0 (parse_DateString 0)
           [entry ''Happy'' ''Sun Nov 08 2026'', entry ''Sad'' ''not a date'',
            entry ''Happy'' ''Tue Nov 10 2026'']
   \<and> streak (V8_sort merge_runs) 0 (parse_DateString 0) noon_Nov_10
       [entry ''Happy'' ''Tue Nov 10 2026'', entry ''Sad'' ''not a date'',
        entry ''Happy'' ''Sun Nov 08 2026''] = 1"
  by (simp add: dates_V8_examples streak_unparseable) (simp add: example_simps)

text \<open>
  C5. With an entry whose date does not parse, a second entry on a day that already has
  one can change the streak. The entries dated 8 November, \<^verbatim>\<open>"not a date"\<close> and
  10 November give the streak 0 at noon on 10 November; with one more entry of 10 November
  in front of them the streak is 1.
\<close>

theorem streak_same_day_unparseable:
  "\<forall>merge_runs.
     date_days 0 [parse_DateString 0 (dateOnly (entry ''Sad'' ''Tue Nov 10 2026''))]
       \<subseteq> journal_days 0 (parse_DateString 0)
           [entry ''Happy'' ''Sun Nov 08 2026'', entry ''Sad'' ''not a date'',
            entry ''Happy'' ''Tue Nov 10 2026'']
   \<and> streak (V8_sort merge_runs) 0 (parse_DateString 0) noon_Nov_10
       [entry ''Happy'' ''Sun Nov 08 2026'', entry ''Sad'' ''not a date'',
        entry ''Happy'' ''Tue Nov 10 2026''] = 0
   \<and> streak (V8_sort merge_runs) 0 (parse_DateString 0) noon_Nov_10
       [entry ''Sad'' ''Tue Nov 10 2026'', entry ''Happy'' ''Sun Nov 08 2026'',
        entry ''Sad'' ''not a date'', entry ''Happy'' ''Tue Nov 10 2026''] = 1"
  by (simp add: streak_unparseable) (simp add: example_simps)

text \<open>
  C8, as amended. For entries whose dates parse, the streak is determined by the set of
  days that have an entry and by the server's local day at the clock reading: two
  invocations on such entries with the same days, at clock readings on the same local day,
  return the same streak.
\<close>

theorem streak_same_days_same_today:
  assumes "\<forall>j\<in>set js1. new_Date (dateOnly j) \<noteq> Invalid_Date"
    and "\<forall>j\<in>set js2. new_Date (dateOnly j) \<noteq> Invalid_Date"
    and "journal_days tz new_Date js1 = journal_days tz new_Date js2"
    and "local_day tz now1 = local_day tz now2"
  shows "streak engine tz new_Date now1 js1 = streak engine tz new_Date now2 js2"
  using assms by (rule streak_unique)

theorem streak_same_days_same_today_witness:
  "\<forall>merge_runs.
     parse_DateString 0 ''Tue Nov 10 2026'' \<noteq> Invalid_Date
   \<and> parse_DateString 0 ''Mon Nov 09 2026'' \<noteq> Invalid_Date
   \<and> journal_days 0 (parse_DateString 0)
        [entry ''Happy'' ''Tue Nov 10 2026'', entry ''Happy'' ''Mon Nov 09 2026'']
      = journal_days 0 (parse_DateString 0)
          [entry ''Sad'' ''Mon Nov 09 2026'', entry ''Sad'' ''Tue Nov 10 2026'',
           entry ''Happy'' ''Tue Nov 10 2026'']
   \<and> local_day 0 noon_Nov_10 = local_day 0 (noon_Nov_10 + one_hour)
   \<and> streak (V8_sort merge_runs) 0 (parse_DateString 0) noon_Nov_10
        [entry ''Happy'' ''Tue Nov 10 2026'', entry ''Happy'' ''Mon Nov 09 2026'']
      = streak (V8_sort merge_runs) 0 (parse_DateString 0) (noon_Nov_10 + one_hour)
          [entry ''Sad'' ''Mon Nov 09 2026'', entry ''Sad'' ''Tue Nov 10 2026'',
           entry ''Happy'' ''Tue Nov 10 2026'']"
proof (rule allI)
  fix merge_runs :: "(Date \<Rightarrow> Date \<Rightarrow> int option) \<Rightarrow> Date list \<Rightarrow> Date list"
  let ?J1 = "[entry ''Happy'' ''Tue Nov 10 2026'', entry ''Happy'' ''Mon Nov 09 2026'']"
  let ?J2 = "[entry ''Sad'' ''Mon Nov 09 2026'', entry ''Sad'' ''Tue Nov 10 2026'',
              entry ''Happy'' ''Tue Nov 10 2026'']"
  have v1: "\<forall>j\<in>set ?J1. parse_DateString 0 (dateOnly j) \<noteq> Invalid_Date"
    and v2: "\<forall>j\<in>set ?J2. parse_DateString 0 (dateOnly j) \<noteq> Invalid_Date"
    by (simp_all add: entry_def parse_Nov)
  have days: "journal_days 0 (parse_DateString 0) ?J1 = journal_days 0 (parse_DateString 0) ?J2"
    by (simp add: example_simps insert_commute)
  have day: "local_day 0 noon_Nov_10 = local_day 0 (noon_Nov_10 + one_hour)"
    by (simp add: local_day_def Day_def LocalTime_def msPerDay_def noon_Nov_10_def one_hour_def)
  from streak_same_days_same_today [OF v1 v2 days day, of "V8_sort merge_runs"] days day
  show "parse_DateString 0 ''Tue Nov 10 2026'' \<noteq> Invalid_Date
   \<and> parse_DateString 0 ''Mon Nov 09 2026'' \<noteq> Invalid_Date
   \<and> journal_days 0 (parse_DateString 0) ?J1 = journal_days 0 (parse_DateString 0) ?J2
   \<and> local_day 0 noon_Nov_10 = local_day 0 (noon_Nov_10 + one_hour)
   \<and> streak (V8_sort merge_runs) 0 (parse_DateString 0) noon_Nov_10 ?J1
      = streak (V8_sort merge_runs) 0 (parse_DateString 0) (noon_Nov_10 + one_hour) ?J2"
    by (simp add: parse_Nov)
qed

text \<open>
  C8 as stated fails: the handler is given no reference day. It reads the clock, and the
  same entries give different streaks at two clock readings.
\<close>

theorem streak_clock_counterexample:
  "\<forall>merge_runs.
     streak (V8_sort merge_runs) 0 (parse_DateString 0) noon_Nov_10
       [entry ''Happy'' ''Tue Nov 10 2026'']
     \<noteq> streak (V8_sort merge_runs) 0 (parse_DateString 0) (noon_Nov_10 + msPerDay)
         [entry ''Happy'' ''Tue Nov 10 2026'']"
  by (simp add: streak_one_entry)




text \<open>
  C4, as amended. For no entries \<^verbatim>\<open>averageMood\<close> is the number 0. For entries (fewer than
  \<open>2 ^ 32\<close>, an array's limit) whose moods are not names inherited from
  \<^verbatim>\<open>Object.prototype\<close>, it is the string \<^verbatim>\<open>toFixed(1)\<close> returns: the one-decimal numeral,
  between 1.0 and 5.0, of a multiple of one tenth nearest to the mean of the moods on the
  scale 1 to 5. One \<^verbatim>\<open>"Happy"\<close> entry gives \<^verbatim>\<open>"4.0"\<close>; entries of value 1 and 5 give
  \<^verbatim>\<open>"3.0"\<close>. A mean halfway between two tenths goes by the binary value of the quotient:
  23/20 gives \<^verbatim>\<open>"1.1"\<close> and 5/4 gives \<^verbatim>\<open>"1.3"\<close>.
\<close>

theorem averageMood_rounded_mean:
  "averageMood [] = JNumber 0
   \<and> (journals \<noteq> [] \<and> length journals < 2 ^ 32
        \<and> (\<forall>j\<in>set journals. mood j \<notin> set Object_prototype)
      \<longrightarrow> (\<exists>k. 10 \<le> k \<and> k \<le> 50 \<and> averageMood journals = JString (fixed1_string k)
               \<and> json_number (averageMood journals) = Some (of_int k / 10)
               \<and> \<bar>of_int k / 10 - mean_mood journals\<bar> \<le> 1 / 20))
   \<and> averageMood [entry ''Happy'' d] = JString ''4.0''
   \<and> json_number (JString ''4.0'') = Some 4
   \<and> averageMood [entry ''Very Sad'' d, entry ''Very Happy'' d'] = JString ''3.0''
   \<and> json_number (JString ''3.0'') = Some 3
   \<and> averageMood (replicate 17 (entry ''Very Sad'' d) @ replicate 3 (entry ''Sad'' d))
       = JString ''1.1''
   \<and> averageMood (replicate 3 (entry ''Very Sad'' d) @ [entry ''Sad'' d]) = JString ''1.3''"
proof -
  have "\<exists>k. 10 \<le> k \<and> k \<le> 50 \<and> averageMood journals = JString (fixed1_string k)
               \<and> json_number (averageMood journals) = Some (of_int k / 10)
               \<and> \<bar>of_int k / 10 - mean_mood journals\<bar> \<le> 1 / 20"
    if h: "journals \<noteq> [] \<and> length journals < 2 ^ 32
        \<and> (\<forall>j\<in>set journals. mood j \<notin> set Object_prototype)"
  proof -
    from h averageMood_rounds [of journals] obtain k where
      k: "10 \<le> k" "k \<le> 50" "averageMood journals = JString (fixed1_string k)"
        "\<bar>of_int k / 10 - mean_mood journals\<bar> \<le> 1 / 20"
      by blast
    from k(1) have "json_number (averageMood journals) = Some (of_int k / 10)"
      by (simp add: k(3) json_number_fixed1)
    with k show ?thesis by blast
  qed
  moreover have "averageMood [] = JNumber 0" by (simp add: averageMood_def)
  moreover have "json_number (JString ''4.0'') = Some 4" "json_number (JString ''3.0'') = Some 3"
    using json_number_fixed1 [of 40] json_number_fixed1 [of 30] by (simp_all add: fixed1_examples)
  ultimately show ?thesis
    using averageMood_Happy [of d] averageMood_1_5 [of d d'] averageMood_ties [of d] by blast
qed

theorem averageMood_rounded_mean_witness:
  "[entry ''Happy'' [], entry ''Very Happy'' [], entry ''Happy'' []] \<noteq> []
   \<and> length [entry ''Happy'' [], entry ''Very Happy'' [], entry ''Happy'' []] < 2 ^ 32
   \<and> ''Happy'' \<notin> set Object_prototype \<and> ''Very Happy'' \<notin> set Object_prototype
   \<and> mean_mood [entry ''Happy'' [], entry ''Very Happy'' [], entry ''Happy'' []] = 13 / 3
   \<and> averageMood [entry ''Happy'' [], entry ''Very Happy'' [], entry ''Happy'' []] = JString ''4.3''
   \<and> json_number (JString ''4.3'') = Some (43 / 10)"
proof -
  let ?J = "[entry ''Happy'' [], entry ''Very Happy'' [], entry ''Happy'' []]"
  have ok: "''Happy'' \<notin> set Object_prototype" "''Very Happy'' \<notin> set Object_prototype"
    by (simp_all add: Object_prototype_def)
  then have h: "?J \<noteq> [] \<and> length ?J < 2 ^ 32 \<and> (\<forall>j\<in>set ?J. mood j \<notin> set Object_prototype)"
    by (simp add: entry_def)
  have m: "mean_mood ?J = 13 / 3" by (simp add: mean_mood_def entry_def mood_number_def)
  have a: "averageMood ?J = JString ''4.3''"
    using averageMood_value(1) [of ?J] h by (simp add: m toFixed1_examples)
  from averageMood_rounded_mean [of ?J] h obtain k where
    k: "averageMood ?J = JString (fixed1_string k)"
      "json_number (averageMood ?J) = Some (of_int k / 10)"
      "\<bar>of_int k / 10 - mean_mood ?J\<bar> \<le> 1 / 20"
    by blast
  from k(3) have "(42 :: rat) < of_int k" "(of_int k :: rat) < 44"
    unfolding m by linarith+
  then have "42 < k" "k < 44" by simp_all
  then have "k = 43" by simp
  with k(2) a have "json_number (JString ''4.3'') = Some (43 / 10)" by simp
  with ok m a show ?thesis by simp
qed

text \<open>
  C4 as stated fails: for one \<^verbatim>\<open>"Happy"\<close> entry \<^verbatim>\<open>averageMood\<close> is the string
  \<^verbatim>\<open>"4.0"\<close>, not the number 4.
\<close>

theorem averageMood_string_counterexample:
  "averageMood [entry ''Happy'' ''Tue Nov 10 2026''] \<noteq> JNumber 4"
  by (simp add: averageMood_Happy)

text \<open>
  C10. \<^verbatim>\<open>moodMap["constructor"]\<close> is a function inherited from \<^verbatim>\<open>Object.prototype\<close>, so
  \<^verbatim>\<open>|| 3\<close> keeps it, the sum becomes a string, and \<^verbatim>\<open>averageMood\<close> is \<^verbatim>\<open>"NaN"\<close>: a
  label outside the five named ones that is not mapped to 3.
\<close>

theorem moodMap_inherited_name:
  "''constructor'' \<notin> fst ` set moodMap
   \<and> or_3 (moodMap_get ''constructor'') = Object_Value
   \<and> averageMood [entry ''constructor'' ''Tue Nov 10 2026''] = JString ''NaN''"
  by (simp add: averageMood_constructor moodMap_get_def moodMap_def Object_prototype_def or_3_def)

text \<open>
  C7, as amended. For a known user the handler answers with a summary, whatever the
  entries: \<^verbatim>\<open>totalEntries\<close> is their number, entries with an unparseable date are never
  counted in the streak, no entries give 0, 0 and 0, and for moods that are not names
  inherited from \<^verbatim>\<open>Object.prototype\<close> \<^verbatim>\<open>averageMood\<close> denotes a number from 1 to 5.
\<close>

theorem stats_get_summary:
  assumes "Users db userId = Some u"
  shows "\<exists>st. stats_get engine tz new_Date now db userId = Json st
       \<and> json_totalEntries st = length (JournalEntry_find db userId)
       \<and> json_streak st
           \<le> json_totalEntries st - malformed_count new_Date (JournalEntry_find db userId)
       \<and> (JournalEntry_find db userId = []
           \<longrightarrow> json_totalEntries st = 0 \<and> json_averageMood st = JNumber 0 \<and> json_streak st = 0)
       \<and> (JournalEntry_find db userId \<noteq> [] \<and> length (JournalEntry_find db userId) < 2 ^ 32
            \<and> (\<forall>j\<in>set (JournalEntry_find db userId). mood j \<notin> set Object_prototype)
           \<longrightarrow> (\<exists>r. json_number (json_averageMood st) = Some r \<and> 1 \<le> r \<and> r \<le> 5))"
proof -
  let ?J = "JournalEntry_find db userId"
  define st where "st = \<lparr> json_name = name u, json_email = email u,
      json_totalEntries = JournalEntry_countDocuments db userId,
      json_averageMood = averageMood ?J, json_streak = streak engine tz new_Date now ?J,
      json_communityPosts = Post_countDocuments db (name u) \<rparr>"
  have 1: "stats_get engine tz new_Date now db userId = Json st"
    using assms by (simp add: stats_get_def st_def Let_def)
  have 2: "json_totalEntries st = length ?J"
    by (simp add: st_def JournalEntry_countDocuments_def)
  have 3: "json_streak st \<le> json_totalEntries st - malformed_count new_Date ?J"
    using streak_le_wellformed [of engine tz new_Date now ?J] by (simp add: 2) (simp add: st_def)
  have 4: "json_totalEntries st = 0 \<and> json_averageMood st = JNumber 0 \<and> json_streak st = 0"
    if "?J = []"
    using that by (simp add: 2) (simp add: st_def averageMood_def streak_def)
  have 5: "\<exists>r. json_number (json_averageMood st) = Some r \<and> 1 \<le> r \<and> r \<le> 5"
    if h: "?J \<noteq> [] \<and> length ?J < 2 ^ 32 \<and> (\<forall>j\<in>set ?J. mood j \<notin> set Object_prototype)"
  proof -
    from h averageMood_rounds [of ?J] obtain k where
      k: "10 \<le> k" "k \<le> 50" "averageMood ?J = JString (fixed1_string k)"
      by blast
    from k(1) have "json_number (json_averageMood st) = Some (of_int k / 10)"
      by (simp add: st_def k(3) json_number_fixed1)
    moreover have "(1::rat) \<le> of_int k / 10" "(of_int k / 10 :: rat) \<le> 5"
      using k(1,2) by simp_all
    ultimately show ?thesis by blast
  qed
  from 1 2 3 4 5 show ?thesis by blast
qed

theorem stats_get_summary_witness:
  "\<forall>merge_runs.
     Users (db_of [entry ''Happy'' ''Tue Nov 10 2026'', entry ''Sad'' ''not a date'']) 7
       = Some \<lparr>name = ''asha'', email = ''asha@example.org''\<rparr>
   \<and> stats_get (V8_sort merge_runs) 0 (parse_DateString 0) noon_Nov_10
        (db_of [entry ''Happy'' ''Tue Nov 10 2026'', entry ''Sad'' ''not a date'']) 7
      = Json \<lparr> json_name = ''asha'', json_email = ''asha@example.org'', json_totalEntries = 2,
               json_averageMood = JString ''3.0'', json_streak = 1, json_communityPosts = 0 \<rparr>
   \<and> malformed_count (parse_DateString 0)
        [entry ''Happy'' ''Tue Nov 10 2026'', entry ''Sad'' ''not a date''] = 1
   \<and> json_number (JString ''3.0'') = Some 3"
proof (rule allI)
  fix merge_runs :: "(Date \<Rightarrow> Date \<Rightarrow> int option) \<Rightarrow> Date list \<Rightarrow> Date list"
  let ?J = "[entry ''Happy'' ''Tue Nov 10 2026'', entry ''Sad'' ''not a date'']"
  let ?u = "\<lparr>name = ''asha'', email = ''asha@example.org''\<rparr>"
  have u: "Users (db_of ?J) 7 = Some ?u" by (simp add: db_of_def)
  have f: "JournalEntry_find (db_of ?J) 7 = ?J"
    by (simp add: JournalEntry_find_def db_of_def entry_def)
  have a: "averageMood ?J = JString ''3.0''"
    using averageMood_whole [of ?J 3]
    by (simp add: entry_def mood_number_def Object_prototype_def fixed1_examples)
  have s: "stats_get (V8_sort merge_runs) 0 (parse_DateString 0) noon_Nov_10 (db_of ?J) 7
      = Json \<lparr> json_name = ''asha'', json_email = ''asha@example.org'', json_totalEntries = 2,
               json_averageMood = JString ''3.0'', json_streak = 1, json_communityPosts = 0 \<rparr>"
    using u by (simp add: stats_get_def Let_def f a streak_one_entry
        JournalEntry_countDocuments_def Post_countDocuments_def) (simp add: db_of_def)
  have m: "malformed_count (parse_DateString 0) ?J = 1"
    by (simp add: malformed_count_def entry_def parse_Nov)
  have ok: "?J \<noteq> [] \<and> length ?J < 2 ^ 32 \<and> (\<forall>j\<in>set ?J. mood j \<notin> set Object_prototype)"
    by (simp add: entry_def Object_prototype_def)
  from stats_get_summary [OF u, of "V8_sort merge_runs" 0 "parse_DateString 0" noon_Nov_10] ok
  obtain r where "json_number (JString ''3.0'') = Some r"
    unfolding s f by auto
  moreover have "json_number (JString ''3.0'') = Some 3"
    using json_number_fixed1 [of 30] by (simp add: fixed1_examples)
  ultimately show "Users (db_of ?J) 7 = Some ?u
   \<and> stats_get (V8_sort merge_runs) 0 (parse_DateString 0) noon_Nov_10 (db_of ?J) 7
      = Json \<lparr> json_name = ''asha'', json_email = ''asha@example.org'', json_totalEntries = 2,
               json_averageMood = JString ''3.0'', json_streak = 1, json_communityPosts = 0 \<rparr>
   \<and> malformed_count (parse_DateString 0) ?J = 1
   \<and> json_number (JString ''3.0'') = Some 3"
    using u s m by simp
qed

text \<open>
  C7 as stated fails: unparseable dates leave no trace in the answer. A collection with
  one and a collection with none get the same answer.
\<close>

theorem stats_get_malformed_counterexample:
  "\<forall>merge_runs.
     stats_get (V8_sort merge_runs) 0 (parse_DateString 0) noon_Nov_10
       (db_of [entry ''Happy'' ''not a date'']) 7
     = stats_get (V8_sort merge_runs) 0 (parse_DateString 0) noon_Nov_10
         (db_of [entry ''Happy'' ''Fri Nov 06 2026'']) 7
   \<and> malformed_count (parse_DateString 0) [entry ''Happy'' ''not a date''] = 1
   \<and> malformed_count (parse_DateString 0) [entry ''Happy'' ''Fri Nov 06 2026''] = 0"
proof -
  have f: "JournalEntry_find (db_of [entry m s]) 7 = [entry m s]" for m s
    by (simp add: JournalEntry_find_def db_of_def entry_def)
  have u: "Users (db_of js) 7 = Some \<lparr>name = ''asha'', email = ''asha@example.org''\<rparr>" for js
    by (simp add: db_of_def)
  have p: "Post_countDocuments (db_of js) n = 0" for js n
    by (simp add: Post_countDocuments_def db_of_def)
  have "stats_get (V8_sort merge_runs) 0 (parse_DateString 0) noon_Nov_10
          (db_of [entry ''Happy'' ''not a date'']) 7
     = stats_get (V8_sort merge_runs) 0 (parse_DateString 0) noon_Nov_10
         (db_of [entry ''Happy'' ''Fri Nov 06 2026'']) 7" for merge_runs
    by (simp add: stats_get_def Let_def JournalEntry_countDocuments_def f u p
        averageMood_Happy streak_one_entry)
  then show ?thesis by (simp add: malformed_count_def entry_def parse_Nov)
qed

end
